theory Spec2Isabelle
  imports Complex_Main
begin

section \<open>Common vocabulary\<close>

text \<open>
  The repository is Python. Python floats are idealised as \<^typ>\<open>real\<close> throughout:
  rounding, overflow to infinity and NaN are outside the model. Python ints are
  \<^typ>\<open>int\<close>. An exception is a value of \<open>py_exn\<close>; a call that may raise returns
  \<open>py_exn + 'a\<close> with \<open>Inl\<close> for the exception. \<open>LibraryError\<close> stands for any
  exception raised inside a third-party library call (open3d).
\<close>

datatype py_exn =
    JSONDecodeError
  | TypeError
  | AttributeError
  | ValueError
  | IndexError
  | OverflowError
  | ZeroDivisionError
  | SqliteError
  | LibraryError

text \<open>What \<open>logger.warning\<close>, \<open>logger.error\<close> and \<open>logger.info\<close> leave behind: the level.\<close>

datatype log_level = INFO | WARNING | ERROR

section \<open>Point-cloud pipeline (visualizer.py, advanced\_visualizer.py)\<close>

type_synonym point = "real \<times> real \<times> real"
type_synonym color = "real \<times> real \<times> real"
type_synonym plane = "real \<times> real \<times> real \<times> real"

subsection \<open>LidarVisualizer.convert\_readings\_to\_points\<close>

text \<open>
  \<open>scan_data\<close> is a dict or \<open>None\<close>; \<open>readings\<close> is \<open>None\<close> when the dict has no
  \<open>'readings'\<close> key, otherwise the items of the readings dict in iteration order.
\<close>

record scan_data =
  timestamp :: real
  device_id :: string
  readings :: "(string \<times> real) list option"

text \<open>\<open>str.split(sep)\<close> for a one-character separator.\<close>

fun py_split :: "char \<Rightarrow> string \<Rightarrow> string list" where
  "py_split c [] = [[]]"
| "py_split c (x # xs) =
     (if x = c then [] # py_split c xs
      else (case py_split c xs of
              w # ws \<Rightarrow> (x # w) # ws
            | [] \<Rightarrow> [[x]]))"

text \<open>
  \<open>float(angle_key.split('_')[1])\<close>. The builtin \<open>float\<close> is a parameter
  (\<open>None\<close> when it raises ValueError).
\<close>

definition parse_angle :: "(string \<Rightarrow> real option) \<Rightarrow> string \<Rightarrow> py_exn + real" where
  "parse_angle py_float angle_key =
     (case py_split CHR ''_'' angle_key of
        _ # s # _ \<Rightarrow> (case py_float s of Some a \<Rightarrow> Inr a | None \<Rightarrow> Inl ValueError)
      | _ \<Rightarrow> Inl IndexError)"

definition radians :: "real \<Rightarrow> real" where
  "radians deg = deg * pi / 180"

text \<open>\<open>max\<close> of a sequence: ValueError on the empty one.\<close>

definition py_max :: "real list \<Rightarrow> py_exn + real" where
  "py_max xs = (case xs of [] \<Rightarrow> Inl ValueError | x # rest \<Rightarrow> Inr (fold max rest x))"

text \<open>
  The body of the \<open>for\<close> loop over \<open>readings.items()\<close>; the accumulator is
  (log, points, colors). \<open>colormap\<close> is matplotlib's viridis, a parameter, of which the
  RGB components are kept.
\<close>

fun convert_loop ::
  "(string \<Rightarrow> real option) \<Rightarrow> (real \<Rightarrow> color) \<Rightarrow> real \<Rightarrow> (string \<times> real) list \<Rightarrow>
   log_level list \<times> point list \<times> color list \<Rightarrow> log_level list \<times> point list \<times> color list" where
  "convert_loop py_float colormap max_distance [] acc = acc"
| "convert_loop py_float colormap max_distance ((angle_key, distance) # rest) (lg, points, colors) =
     (case parse_angle py_float angle_key of
        Inl e \<Rightarrow> convert_loop py_float colormap max_distance rest (lg @ [WARNING], points, colors)
      | Inr angle_deg \<Rightarrow>
          (let angle_rad = radians angle_deg;
               x = distance * cos angle_rad;
               y = distance * sin angle_rad;
               z = 0;
               norm_distance = (if max_distance > 0 then distance / max_distance else 0);
               color = colormap norm_distance
           in convert_loop py_float colormap max_distance rest
                (lg, points @ [(x, y, z)], colors @ [color])))"

text \<open>The result \<open>Inr None\<close> is the pair \<open>(None, None)\<close>.\<close>

definition convert_readings_to_points ::
  "(string \<Rightarrow> real option) \<Rightarrow> (real \<Rightarrow> color) \<Rightarrow> scan_data option \<Rightarrow>
   log_level list \<times> (py_exn + (point list \<times> color list) option)" where
  "convert_readings_to_points py_float colormap sd =
     (case sd of
        None \<Rightarrow> ([], Inr None)
      | Some scan \<Rightarrow>
          (case readings scan of
             None \<Rightarrow> ([], Inr None)
           | Some rs \<Rightarrow>
               (case py_max (map snd rs) of
                  Inl e \<Rightarrow> ([], Inl e)
                | Inr max_distance \<Rightarrow>
                    (case convert_loop py_float colormap max_distance rs ([], [], []) of
                       (lg, points, colors) \<Rightarrow> (lg, Inr (Some (points, colors)))))))"

subsection \<open>AdvancedLidarVisualizer.filter\_outliers\<close>

text \<open>
  \<open>pcd.remove_statistical_outlier\<close> is open3d's, a parameter; \<open>np.arange(n)\<close> is
  \<open>[0..<n]\<close>.
\<close>

definition filter_outliers ::
  "(point list \<Rightarrow> int \<Rightarrow> real \<Rightarrow> py_exn + point list \<times> nat list) \<Rightarrow>
   point list \<Rightarrow> int \<Rightarrow> real \<Rightarrow> log_level list \<times> (py_exn + point list \<times> nat list)" where
  "filter_outliers remove_statistical_outlier points nb_neighbors std_ratio =
     (if int (length points) < nb_neighbors + 1
      then ([WARNING], Inr (points, [0..<length points]))
      else (case remove_statistical_outlier points nb_neighbors std_ratio of
              Inr (cleaned, indices) \<Rightarrow> ([INFO], Inr (cleaned, indices))
            | Inl e \<Rightarrow> ([ERROR], Inr (points, [0..<length points]))))"

subsection \<open>AdvancedLidarVisualizer.segment\_ground\_plane\<close>

text \<open>
  \<open>pcd.select_by_index(inliers)\<close> and \<open>pcd.select_by_index(inliers, invert=True)\<close>.
  open3d marks the listed indices in a mask over the cloud and returns the marked points
  (the unmarked ones with \<open>invert\<close>) in the order of the cloud, each once. The indices
  \<open>segment_plane\<close> returns are indices of the cloud.
\<close>

definition select_by_index :: "point list \<Rightarrow> nat list \<Rightarrow> bool \<Rightarrow> point list" where
  "select_by_index points idx invert =
     map (\<lambda>i. points ! i)
       (filter (\<lambda>i. if i \<in> set idx then \<not> invert else invert) [0..<length points])"

text \<open>
  The returned triple is, in the order of the \<open>return\<close> statement of the main path,
  (inlier points, outlier points, inlier indices); the caller unpacks it as
  \<open>ground_points, object_points, ground_indices\<close>. The second component of the result
  is the new value of \<open>self.ground_plane\<close>. \<open>pcd.segment_plane\<close> is open3d's, a
  parameter.
\<close>

definition segment_ground_plane ::
  "(point list \<Rightarrow> real \<Rightarrow> int \<Rightarrow> int \<Rightarrow> py_exn + plane \<times> nat list) \<Rightarrow>
   plane option \<Rightarrow> point list \<Rightarrow> real \<Rightarrow> int \<Rightarrow> int \<Rightarrow>
   log_level list \<times> plane option \<times> (py_exn + point list \<times> point list \<times> nat list)" where
  "segment_ground_plane segment_plane ground_plane points distance_threshold ransac_n num_iterations =
     (if int (length points) < ransac_n
      then ([WARNING], ground_plane, Inr (points, [], []))
      else (case segment_plane points distance_threshold ransac_n num_iterations of
              Inr (plane_model, inliers) \<Rightarrow>
                (let inlier_points = select_by_index points inliers False;
                     outlier_points = select_by_index points inliers True
                 in ([INFO, INFO], Some plane_model,
                     Inr (inlier_points, outlier_points, inliers)))
            | Inl e \<Rightarrow> ([ERROR], ground_plane, Inr (points, [], []))))"

subsection \<open>AdvancedLidarVisualizer.calculate\_object\_dimensions\<close>

record dimensions =
  center :: point
  width :: real
  depth :: real
  height :: real
  min_coords :: point
  max_coords :: point

text \<open>\<open>np.min(points, axis=0)\<close> and \<open>np.max(points, axis=0)\<close>: ValueError on no rows.\<close>

definition np_min_axis0 :: "point list \<Rightarrow> py_exn + point" where
  "np_min_axis0 points =
     (case points of
        [] \<Rightarrow> Inl ValueError
      | p # rest \<Rightarrow>
          Inr (fold (\<lambda>(x, y, z) (mx, my, mz). (min mx x, min my y, min mz z)) rest p))"

definition np_max_axis0 :: "point list \<Rightarrow> py_exn + point" where
  "np_max_axis0 points =
     (case points of
        [] \<Rightarrow> Inl ValueError
      | p # rest \<Rightarrow>
          Inr (fold (\<lambda>(x, y, z) (mx, my, mz). (max mx x, max my y, max mz z)) rest p))"

text \<open>
  \<open>Inr None\<close> is the Python value \<open>None\<close> returned to the caller; \<open>Inl e\<close> would be an
  exception leaving the function.
\<close>

definition calculate_object_dimensions ::
  "point list \<Rightarrow> log_level list \<times> (py_exn + dimensions option)" where
  "calculate_object_dimensions points =
     (if length points < 3 then ([WARNING], Inr None)
      else (case np_min_axis0 points of
              Inl e \<Rightarrow> ([ERROR], Inr None)
            | Inr (x0, y0, z0) \<Rightarrow>
                (case np_max_axis0 points of
                   Inl e \<Rightarrow> ([ERROR], Inr None)
                 | Inr (x1, y1, z1) \<Rightarrow>
                     ([], Inr (Some \<lparr> center = ((x0 + x1) / 2, (y0 + y1) / 2, (z0 + z1) / 2),
                                      width = x1 - x0,
                                      depth = y1 - y0,
                                      height = z1 - z0,
                                      min_coords = (x0, y0, z0),
                                      max_coords = (x1, y1, z1) \<rparr>)))))"

section \<open>Ingestion recorder (receiver.py)\<close>

subsection \<open>Decoded payloads\<close>

text \<open>
  What \<open>json.loads\<close> returns. An object is the list of its items in dict order (keys
  distinct, as in a Python dict).
\<close>

datatype json =
    JNull
  | JBool bool
  | JInt int
  | JFloat real
  | JStr string
  | JArr "json list"
  | JObj "(string \<times> json) list"

text \<open>\<open>d.get(key, default)\<close> on a dict.\<close>

definition dict_get :: "(string \<times> json) list \<Rightarrow> string \<Rightarrow> json \<Rightarrow> json" where
  "dict_get kvs k dflt = (case map_of kvs k of None \<Rightarrow> dflt | Some v \<Rightarrow> v)"

text \<open>\<open>sub in s\<close> for two strings.\<close>

fun py_str_contains :: "string \<Rightarrow> string \<Rightarrow> bool" where
  "py_str_contains sub [] = (sub = [])"
| "py_str_contains sub (c # cs) = (take (length sub) (c # cs) = sub \<or> py_str_contains sub cs)"

text \<open>
  \<open>"send_time" in data\<close>: key membership on a dict, element membership on a list,
  substring test on a string, TypeError on anything else.
\<close>

definition has_send_time :: "json \<Rightarrow> py_exn + bool" where
  "has_send_time data =
     (case data of
        JObj kvs \<Rightarrow> Inr (map_of kvs ''send_time'' \<noteq> None)
      | JArr xs \<Rightarrow> Inr (JStr ''send_time'' \<in> set xs)
      | JStr s \<Rightarrow> Inr (py_str_contains ''send_time'' s)
      | _ \<Rightarrow> Inl TypeError)"

text \<open>The operand of a float subtraction: ints, floats and bools are numbers.\<close>

definition py_number :: "json \<Rightarrow> real option" where
  "py_number v =
     (case v of
        JInt i \<Rightarrow> Some (real_of_int i)
      | JFloat r \<Rightarrow> Some r
      | JBool b \<Rightarrow> Some (if b then 1 else 0)
      | _ \<Rightarrow> None)"

text \<open>
  \<open>(receive_time - data["send_time"]) * 1000\<close>. Subscripting a list or a string with a
  string raises TypeError, as does subtracting a non-number.
\<close>

definition compute_latency :: "real \<Rightarrow> json \<Rightarrow> py_exn + real" where
  "compute_latency receive_time data =
     (case data of
        JObj kvs \<Rightarrow>
          (case map_of kvs ''send_time'' of
             None \<Rightarrow> Inl TypeError
           | Some v \<Rightarrow>
               (case py_number v of
                  None \<Rightarrow> Inl TypeError
                | Some send_time \<Rightarrow> Inr ((receive_time - send_time) * 1000)))
      | _ \<Rightarrow> Inl TypeError)"

subsection \<open>The SQLite store\<close>

text \<open>
  Values as the sqlite3 module binds them. A list or a dict cannot be bound
  (an \<open>sqlite3.Error\<close>); an int outside 64 bits raises OverflowError, which is not an
  \<open>sqlite3.Error\<close>. Column affinity conversions are not modelled: a row holds the bound
  values. Failures of the storage medium are outside the model.
\<close>

datatype sql_value = SqlNull | SqlInt int | SqlReal real | SqlText string

definition sql_bind :: "json \<Rightarrow> py_exn + sql_value" where
  "sql_bind v =
     (case v of
        JNull \<Rightarrow> Inr SqlNull
      | JBool b \<Rightarrow> Inr (SqlInt (if b then 1 else 0))
      | JInt i \<Rightarrow> (if - (2 ^ 63) \<le> i \<and> i < 2 ^ 63 then Inr (SqlInt i) else Inl OverflowError)
      | JFloat r \<Rightarrow> Inr (SqlReal r)
      | JStr s \<Rightarrow> Inr (SqlText s)
      | JArr xs \<Rightarrow> Inl SqliteError
      | JObj kvs \<Rightarrow> Inl SqliteError)"

fun bind_params :: "json list \<Rightarrow> py_exn + sql_value list" where
  "bind_params [] = Inr []"
| "bind_params (v # vs) =
     (case sql_bind v of
        Inl e \<Rightarrow> Inl e
      | Inr s \<Rightarrow> (case bind_params vs of Inl e \<Rightarrow> Inl e | Inr ss \<Rightarrow> Inr (s # ss)))"

record sensor_data_row =
  row_id :: nat
  row_timestamp :: sql_value
  row_receive_time :: sql_value
  row_message_id :: sql_value
  row_device_id :: sql_value
  row_latency_ms :: sql_value

record stats_row =
  ps_timestamp :: real
  ps_message_count :: nat
  ps_avg_latency :: real
  ps_min_latency :: real
  ps_max_latency :: real
  ps_p95_latency :: real
  ps_throughput :: real

record tables =
  sensor_data :: "sensor_data_row list"
  sensor_readings :: "(nat \<times> string \<times> sql_value) list"
  performance_stats :: "stats_row list"

text \<open>
  The connection: \<open>work\<close> is what the connection sees (committed rows and the rows of
  the open transaction), \<open>durable\<close> what the last commit made permanent, \<open>commits\<close> the
  number of \<open>db_connection.commit()\<close> calls so far.
\<close>

record db =
  work :: tables
  durable :: tables
  commits :: nat

definition commit :: "db \<Rightarrow> db" where
  "commit d = d\<lparr>durable := work d, commits := Suc (commits d)\<rparr>"

text \<open>
  \<open>INSERT INTO sensor_data\<close> with its five parameters, bound in order; then the
  NOT NULL columns \<open>timestamp\<close>, \<open>receive_time\<close> and \<open>device_id\<close>. The new row's id is
  \<open>lastrowid\<close>.
\<close>

definition insert_sensor_data :: "db \<Rightarrow> json list \<Rightarrow> py_exn option \<times> db" where
  "insert_sensor_data d params =
     (case bind_params params of
        Inl e \<Rightarrow> (Some e, d)
      | Inr [ts, rt, mid, dev, lat] \<Rightarrow>
          (if ts = SqlNull \<or> rt = SqlNull \<or> dev = SqlNull then (Some SqliteError, d)
           else (None, d\<lparr>work := (work d)\<lparr>sensor_data := sensor_data (work d) @
                   [\<lparr>row_id = Suc (length (sensor_data (work d))),
                     row_timestamp = ts, row_receive_time = rt, row_message_id = mid,
                     row_device_id = dev, row_latency_ms = lat\<rparr>]\<rparr>\<rparr>))
      | Inr _ \<Rightarrow> (Some SqliteError, d))"

definition lastrowid :: "db \<Rightarrow> nat" where
  "lastrowid d = length (sensor_data (work d))"

text \<open>
  \<open>executemany\<close> of the readings insert: one row after the other, stopping at the
  first that fails; the rows before it stay in the open transaction. \<open>value\<close> is
  NOT NULL.
\<close>

fun executemany_readings :: "db \<Rightarrow> (nat \<times> string \<times> json) list \<Rightarrow> py_exn option \<times> db" where
  "executemany_readings d [] = (None, d)"
| "executemany_readings d ((data_id, angle, v) # rest) =
     (case sql_bind v of
        Inl e \<Rightarrow> (Some e, d)
      | Inr s \<Rightarrow>
          (if s = SqlNull then (Some SqliteError, d)
           else executemany_readings
                  (d\<lparr>work := (work d)\<lparr>sensor_readings :=
                       sensor_readings (work d) @ [(data_id, angle, s)]\<rparr>\<rparr>) rest))"

subsection \<open>Module state and clock\<close>

text \<open>
  The module's globals. \<open>db_connection\<close> and \<open>db_cursor\<close> are set by \<open>setup_database\<close>
  before any message is delivered and stay open until \<open>close_database\<close>; \<open>logged\<close>
  collects the levels of the logger calls.
\<close>

record receiver =
  latencies :: "real list"
  message_counts :: nat
  start_time :: "real option"
  last_report_time :: real
  db_connection :: db
  logged :: "log_level list"

definition reporting_interval :: nat where
  "reporting_interval = 5"

text \<open>
  The values \<open>time.time()\<close> returns at each of its call sites while one message is
  handled: \<open>receive_time\<close> in \<open>on_message\<close>, the default timestamp in
  \<open>store_message\<close>, the report check and the new \<open>last_report_time\<close> in \<open>on_message\<close>,
  the runtime in \<open>report_statistics\<close>, the snapshot's timestamp in
  \<open>save_statistics_snapshot\<close>.
\<close>

record clock =
  t_receive :: real
  t_store :: real
  t_check :: real
  t_report :: real
  t_snapshot :: real
  t_mark :: real

subsection \<open>store\_message\<close>

text \<open>
  The result is the exception that leaves the function, if any, and the globals. A
  \<open>sqlite3.Error\<close> is caught inside (logged, then a commit); anything else propagates.
  \<open>data.get\<close> exists on dicts only.
\<close>

definition store_message ::
  "receiver \<Rightarrow> real \<Rightarrow> json \<Rightarrow> real \<Rightarrow> real option \<Rightarrow> py_exn option \<times> receiver" where
  "store_message st now data receive_time latency =
     (case data of
        JObj kvs \<Rightarrow>
          (let timestamp = dict_get kvs ''timestamp'' (JFloat now);
               message_id = dict_get kvs ''message_id'' (JInt (- 1));
               device_id = dict_get kvs ''device_id'' (JStr ''unknown'');
               lat = (case latency of None \<Rightarrow> JNull | Some l \<Rightarrow> JFloat l);
               (e1, d1) = insert_sensor_data (db_connection st)
                            [timestamp, JFloat receive_time, message_id, device_id, lat];
               (e2, d2) =
                 (if e1 \<noteq> None then (e1, d1)
                  else (case map_of kvs ''readings'' of
                          Some (JObj rds) \<Rightarrow>
                            executemany_readings d1
                              (map (\<lambda>(angle, v). (lastrowid d1, angle, v)) rds)
                        | _ \<Rightarrow> (None, d1)))
           in (case e2 of
                 None \<Rightarrow>
                   (None, st\<lparr>db_connection :=
                              (if message_counts st mod 100 = 0 then commit d2 else d2)\<rparr>)
               | Some e \<Rightarrow>
                   (if e = SqliteError
                    then (None, st\<lparr>db_connection := commit d2, logged := logged st @ [ERROR]\<rparr>)
                    else (Some e, st\<lparr>db_connection := d2\<rparr>))))
      | _ \<Rightarrow> (Some AttributeError, st))"

subsection \<open>report\_statistics and save\_statistics\_snapshot\<close>

text \<open>\<open>int(x)\<close> of a float truncates towards zero.\<close>

definition py_int :: "real \<Rightarrow> int" where
  "py_int x = (if 0 \<le> x then \<lfloor>x\<rfloor> else \<lceil>x\<rceil>)"

text \<open>Subscripting a list with an int, \<open>xs[i]\<close>; \<open>xs[-1]\<close> is the last element.\<close>

definition py_getitem :: "'a list \<Rightarrow> int \<Rightarrow> py_exn + 'a" where
  "py_getitem xs i =
     (if 0 \<le> i \<and> i < int (length xs) then Inr (xs ! nat i)
      else if i < 0 \<and> - int (length xs) \<le> i then Inr (xs ! nat (int (length xs) + i))
      else Inl IndexError)"

text \<open>\<open>sorted(latencies)[int(len(latencies) * 0.95)]\<close>.\<close>

definition p95_of :: "real list \<Rightarrow> py_exn + real" where
  "p95_of ls = py_getitem (sort ls) (py_int (real (length ls) * (95 / 100)))"

definition save_statistics_snapshot ::
  "receiver \<Rightarrow> real \<Rightarrow> real \<Rightarrow> real \<Rightarrow> real \<Rightarrow> real \<Rightarrow> real \<Rightarrow> receiver" where
  "save_statistics_snapshot st now avg_latency min_latency max_latency p95_latency throughput =
     (let d = db_connection st;
          d' = d\<lparr>work := (work d)\<lparr>performance_stats := performance_stats (work d) @
                  [\<lparr>ps_timestamp = now, ps_message_count = message_counts st,
                    ps_avg_latency = avg_latency, ps_min_latency = min_latency,
                    ps_max_latency = max_latency, ps_p95_latency = p95_latency,
                    ps_throughput = throughput\<rparr>]\<rparr>\<rparr>
      in st\<lparr>db_connection := commit d', logged := logged st @ [INFO]\<rparr>)"

text \<open>
  \<open>now\<close> is the clock at the runtime computation, \<open>snap_now\<close> at the snapshot insert.
  \<open>start_time\<close> is \<open>None\<close> until \<open>on_connect\<close> has run; subtracting it then is a
  TypeError, and a zero runtime a ZeroDivisionError.
\<close>

definition report_statistics :: "receiver \<Rightarrow> real \<Rightarrow> real \<Rightarrow> py_exn option \<times> receiver" where
  "report_statistics st now snap_now =
     (if latencies st = [] then (None, st)
      else (case start_time st of
              None \<Rightarrow> (Some TypeError, st)
            | Some t0 \<Rightarrow>
                (let runtime = now - t0
                 in if runtime = 0 then (Some ZeroDivisionError, st)
                    else (let throughput = real (message_counts st) / runtime;
                              st1 = st\<lparr>logged := logged st @ [INFO, INFO, INFO]\<rparr>;
                              avg_latency = sum_list (latencies st) / real (length (latencies st));
                              min_latency = Min (set (latencies st));
                              max_latency = Max (set (latencies st))
                          in (case p95_of (latencies st) of
                                Inl e \<Rightarrow> (Some e, st1)
                              | Inr p95_latency \<Rightarrow>
                                  (let st2 = st1\<lparr>logged := logged st1 @ [INFO, INFO]\<rparr>
                                   in if message_counts st mod (100 * reporting_interval) = 0
                                      then (None, save_statistics_snapshot st2 snap_now avg_latency
                                                    min_latency max_latency p95_latency throughput)
                                      else (None, st2)))))))"

subsection \<open>on\_message, close\_database, handle\_exit\<close>

text \<open>
  The tail of the \<open>try\<close> block of \<open>on_message\<close>, after \<open>store_message\<close>: the
  occasional message log and the periodic report with the update of
  \<open>last_report_time\<close>. The result carries the exception that leaves the block, if any.
\<close>

definition periodic_report :: "receiver \<Rightarrow> clock \<Rightarrow> py_exn option \<times> receiver" where
  "periodic_report st clk =
     (let st3 = (if message_counts st mod 100 = 0 then st\<lparr>logged := logged st @ [INFO]\<rparr> else st)
      in if t_check clk - last_report_time st3 > real reporting_interval
         then (case report_statistics st3 (t_report clk) (t_snapshot clk) of
                 (Some e, st4) \<Rightarrow> (Some e, st4)
               | (None, st4) \<Rightarrow> (None, st4\<lparr>last_report_time := t_mark clk\<rparr>))
         else (None, st3))"

text \<open>
  \<open>on_message\<close>. The payload is \<open>None\<close> when \<open>json.loads\<close> raises. Every exception
  is caught and logged, so the result is the globals alone.
\<close>

definition on_message :: "receiver \<Rightarrow> clock \<Rightarrow> json option \<Rightarrow> receiver" where
  "on_message st clk payload =
     (let receive_time = t_receive clk
      in case payload of
           None \<Rightarrow> st\<lparr>logged := logged st @ [ERROR]\<rparr>
         | Some data \<Rightarrow>
             (case has_send_time data of
                Inl e \<Rightarrow> st\<lparr>logged := logged st @ [ERROR]\<rparr>
              | Inr has \<Rightarrow>
                  (case (if has then map_sum id Some (compute_latency receive_time data)
                         else Inr None) of
                     Inl e \<Rightarrow> st\<lparr>logged := logged st @ [ERROR]\<rparr>
                   | Inr latency \<Rightarrow>
                       (let st1 = st\<lparr>latencies := (case latency of
                                                      None \<Rightarrow> latencies st
                                                    | Some l \<Rightarrow> latencies st @ [l]),
                                      message_counts := message_counts st + 1\<rparr>
                        in case store_message st1 (t_store clk) data receive_time latency of
                             (Some e, st2) \<Rightarrow> st2\<lparr>logged := logged st2 @ [ERROR]\<rparr>
                           | (None, st2) \<Rightarrow>
                               (case periodic_report st2 clk of
                                  (Some e, st4) \<Rightarrow> st4\<lparr>logged := logged st4 @ [ERROR]\<rparr>
                                | (None, st4) \<Rightarrow> st4)))))"

definition close_database :: "receiver \<Rightarrow> receiver" where
  "close_database st = st\<lparr>db_connection := commit (db_connection st), logged := logged st @ [INFO]\<rparr>"

text \<open>
  \<open>handle_exit\<close>: the final report, then \<open>close_database\<close>; an exception of the report
  leaves the handler before the close.
\<close>

definition handle_exit :: "receiver \<Rightarrow> clock \<Rightarrow> py_exn option \<times> receiver" where
  "handle_exit st clk =
     (case report_statistics (st\<lparr>logged := logged st @ [INFO]\<rparr>) (t_report clk) (t_snapshot clk) of
        (Some e, st') \<Rightarrow> (Some e, st')
      | (None, st') \<Rightarrow> (None, close_database st'))"

text \<open>
  The globals as the module sets them at import (\<open>last_report_time = time.time()\<close>),
  with the connection \<open>setup_database\<close> opens, and \<open>on_connect\<close>, which sets
  \<open>start_time\<close>.
\<close>

definition module_init :: "real \<Rightarrow> db \<Rightarrow> receiver" where
  "module_init now d =
     \<lparr>latencies = [], message_counts = 0, start_time = None, last_report_time = now,
      db_connection = d, logged = []\<rparr>"

definition on_connect :: "receiver \<Rightarrow> real \<Rightarrow> receiver" where
  "on_connect st now = st\<lparr>start_time := Some now, logged := logged st @ [INFO]\<rparr>"

definition empty_db :: db where
  "empty_db =
     \<lparr>work = \<lparr>sensor_data = [], sensor_readings = [], performance_stats = []\<rparr>,
      durable = \<lparr>sensor_data = [], sensor_readings = [], performance_stats = []\<rparr>,
      commits = 0\<rparr>"

text \<open>The delivery channel hands the messages to \<open>on_message\<close> one at a time, in order.\<close>

fun deliver :: "receiver \<Rightarrow> (clock \<times> json option) list \<Rightarrow> receiver" where
  "deliver st [] = st"
| "deliver st ((clk, payload) # rest) = deliver (on_message st clk payload) rest"

subsection \<open>A sample message and clock\<close>

text \<open>
  A payload as \<open>sender.py\<close> publishes it, and a clock that shows the same time at every
  call site while one message is handled.
\<close>

definition example_message :: json where
  "example_message =
     JObj [(''timestamp'', JFloat 1), (''device_id'', JStr ''lidar_sensor''),
           (''message_id'', JInt 7), (''send_time'', JFloat 1),
           (''readings'', JObj [(''angle_0'', JFloat 100), (''angle_90'', JFloat 50)])]"

definition steady_clock :: "real \<Rightarrow> clock" where
  "steady_clock t =
     \<lparr>t_receive = t, t_store = t, t_check = t, t_report = t, t_snapshot = t, t_mark = t\<rparr>"

subsection \<open>Payloads that are handled without an error\<close>

text \<open>
  A value that can be written to a NOT NULL column, and one that can be written to a
  nullable column.
\<close>

definition storable :: "json \<Rightarrow> bool" where
  "storable v = (case sql_bind v of Inr s \<Rightarrow> s \<noteq> SqlNull | Inl e \<Rightarrow> False)"

definition bindable :: "json \<Rightarrow> bool" where
  "bindable v = (case sql_bind v of Inr s \<Rightarrow> True | Inl e \<Rightarrow> False)"

text \<open>
  The payloads for which \<open>on_message\<close> reaches the end of \<open>store_message\<close> without an
  exception: a dict whose \<open>send_time\<close>, if present, is a number, whose \<open>timestamp\<close>,
  \<open>message_id\<close> and \<open>device_id\<close>, if present, fit their columns, and whose
  \<open>readings\<close>, if a dict, holds values that fit the \<open>value\<close> column. The payloads of
  the message contract (numbers, a string, a map of numbers) are of this kind.
\<close>

definition well_formed_payload :: "json \<Rightarrow> bool" where
  "well_formed_payload data =
     (case data of
        JObj kvs \<Rightarrow>
          (case map_of kvs ''send_time'' of None \<Rightarrow> True | Some v \<Rightarrow> py_number v \<noteq> None) \<and>
          (case map_of kvs ''timestamp'' of None \<Rightarrow> True | Some v \<Rightarrow> storable v) \<and>
          (case map_of kvs ''message_id'' of None \<Rightarrow> True | Some v \<Rightarrow> bindable v) \<and>
          (case map_of kvs ''device_id'' of None \<Rightarrow> True | Some v \<Rightarrow> storable v) \<and>
          (case map_of kvs ''readings'' of
             Some (JObj rds) \<Rightarrow> list_all (\<lambda>(angle, v). storable v) rds
           | _ \<Rightarrow> True)
      | _ \<Rightarrow> False)"

subsection \<open>The conversion the specification describes\<close>

text \<open>
  The specification's polar-to-Cartesian rule, reading by reading: a reading whose
  label parses to the angle \<open>a\<close> (in degrees) becomes the point
  \<open>(distance * cos a, distance * sin a, 0)\<close> with \<open>a\<close> in radians; a reading whose
  label does not parse is skipped.
\<close>

definition polar_points_spec :: "(string \<Rightarrow> real option) \<Rightarrow> (string \<times> real) list \<Rightarrow> point list" where
  "polar_points_spec py_float rs =
     concat (map (\<lambda>(angle_key, distance).
                    case parse_angle py_float angle_key of
                      Inr a \<Rightarrow> [(distance * cos (a * pi / 180), distance * sin (a * pi / 180), 0)]
                    | Inl e \<Rightarrow> []) rs)"

section \<open>Results about the point-cloud pipeline\<close>

text \<open>
  Claim C1, as the code has it: for every point set with fewer than 3 points,
  \<open>calculate_object_dimensions\<close> logs one warning and hands the Python value
  \<open>None\<close> back to the caller. No exception leaves the function and no dimension record
  (default or otherwise) is returned.
\<close>

theorem dimensions_short_returns_None:
  "length points < 3 \<Longrightarrow> calculate_object_dimensions points = ([WARNING], Inr None)"
  by (simp add: calculate_object_dimensions_def)

theorem dimensions_short_returns_None_witness:
  "length [(0, 0, 0), (2, 0, 0) :: point] < 3 \<and>
   calculate_object_dimensions [(0, 0, 0), (2, 0, 0)] = ([WARNING], Inr None)"
  using dimensions_short_returns_None [of "[(0, 0, 0), (2, 0, 0)]"] by simp

text \<open>
  Claim C1 as stated asks for a failure (an error raised to the caller). On the
  two-point set below the call returns normally, with the value \<open>None\<close>.
\<close>

theorem dimensions_short_no_error_counterexample:
  "snd (calculate_object_dimensions [(0, 0, 0), (1, 1, 1)]) = Inr None"
  by (simp add: calculate_object_dimensions_def)

text \<open>
  Claim C9: for every point set with fewer than \<open>k + 1\<close> points,
  \<open>filter_outliers\<close> is the identity: it returns the input points unchanged together
  with all original indices \<open>0, ..., n - 1\<close>, logs a warning and raises nothing. The
  library's outlier removal is not consulted.
\<close>

theorem filter_outliers_identity_when_short:
  "int (length points) < k + 1 \<Longrightarrow>
   filter_outliers remove_statistical_outlier points k std_ratio =
     ([WARNING], Inr (points, [0..<length points]))"
  by (simp add: filter_outliers_def)

theorem filter_outliers_identity_when_short_witness:
  "int (length [(1, 2, 0), (3, 4, 0) :: point]) < 20 + 1 \<and>
   filter_outliers (\<lambda>ps n r. Inl LibraryError) [(1, 2, 0), (3, 4, 0)] 20 2 =
     ([WARNING], Inr ([(1, 2, 0), (3, 4, 0)], [0, 1]))"
  using filter_outliers_identity_when_short
          [of "[(1, 2, 0), (3, 4, 0)]" 20 "\<lambda>ps n r. Inl LibraryError" 2]
  by (simp add: upt_rec)

text \<open>
  Claim C4 at a two-point input with \<open>ransac_n = 3\<close>: the guard returns the triple
  \<open>(points, [], [])\<close>. Its first component is the position of the inlier (ground)
  points, its second that of the outlier (non-ground) points: the whole input comes
  back as ground and the non-ground set is empty, while the inlier index set is empty.
\<close>

theorem segment_ground_plane_short_input:
  "segment_ground_plane (\<lambda>ps t n i. Inl LibraryError) None [(0, 0, 0), (1, 0, 0)] 10 3 100 =
     ([WARNING], None, Inr ([(0, 0, 0), (1, 0, 0)], [], []))"
  by (simp add: segment_ground_plane_def)

text \<open>
  Claim C3 at a scan whose readings dict is empty: \<open>max(readings.values())\<close> raises
  ValueError before the loop starts, and nothing in \<open>convert_readings_to_points\<close>
  catches it.
\<close>

theorem convert_empty_readings_raises:
  "convert_readings_to_points (\<lambda>s. None) (\<lambda>x. (0, 0, 0))
     (Some \<lparr>timestamp = 0, device_id = ''lidar'', readings = Some []\<rparr>) =
     ([], Inl ValueError)"
  by (simp add: convert_readings_to_points_def py_max_def)

lemma convert_loop_points:
  "\<exists>lg' cs'. convert_loop pf cm m rs (lg, ps, cs) = (lg', ps @ polar_points_spec pf rs, cs') \<and>
     (length cs = length ps \<longrightarrow> length cs' = length (ps @ polar_points_spec pf rs))"
proof (induction rs arbitrary: lg ps cs)
  case Nil
  then show ?case by (simp add: polar_points_spec_def)
next
  case (Cons r rs)
  obtain k d where r: "r = (k, d)" by (cases r)
  show ?case
  proof (cases "parse_angle pf k")
    case (Inl e)
    with Cons.IH [of "lg @ [WARNING]" ps cs] r show ?thesis
      by (simp add: polar_points_spec_def)
  next
    case (Inr a)
    with Cons.IH [of lg "ps @ [(d * cos (radians a), d * sin (radians a), 0)]"
        "cs @ [cm (if m > 0 then d / m else 0)]"] r
    show ?thesis by (simp add: radians_def Let_def polar_points_spec_def)
  qed
qed

text \<open>
  Claim C8: for a scan with a non-empty readings dict, \<open>convert_readings_to_points\<close>
  returns, in the order of the readings, exactly the points
  \<open>(distance * cos (radians angle), distance * sin (radians angle), 0)\<close> of the readings
  whose label parses, with as many colors. In particular, when \<open>float\<close> reads
  \<open>"0"\<close> as 0 and \<open>"90"\<close> as 90, the readings \<open>angle_0 = 100\<close> and
  \<open>angle_90 = 50\<close> give the points \<open>(100, 0, 0)\<close> and \<open>(0, 50, 0)\<close> (exactly so over
  the reals).
\<close>

theorem polar_to_cartesian:
  assumes "readings scan = Some rs" and "rs \<noteq> []"
  shows "(\<exists>lg colors. convert_readings_to_points py_float colormap (Some scan) =
             (lg, Inr (Some (polar_points_spec py_float rs, colors))) \<and>
           length colors = length (polar_points_spec py_float rs)) \<and>
         (py_float ''0'' = Some 0 \<and> py_float ''90'' = Some 90 \<longrightarrow>
           polar_points_spec py_float [(''angle_0'', 100), (''angle_90'', 50)] =
             [(100, 0, 0), (0, 50, 0)])"
proof
  from assms(2) obtain m where m: "py_max (map snd rs) = Inr m"
    by (cases rs) (simp_all add: py_max_def)
  from convert_loop_points [of py_float colormap m rs "[]" "[]" "[]"]
  obtain lg' cs' where
    "convert_loop py_float colormap m rs ([], [], []) = (lg', polar_points_spec py_float rs, cs')"
    and "length cs' = length (polar_points_spec py_float rs)"
    by auto
  with assms(1) m
  show "\<exists>lg colors. convert_readings_to_points py_float colormap (Some scan) =
             (lg, Inr (Some (polar_points_spec py_float rs, colors))) \<and>
           length colors = length (polar_points_spec py_float rs)"
    by (simp add: convert_readings_to_points_def)
next
  show "py_float ''0'' = Some 0 \<and> py_float ''90'' = Some 90 \<longrightarrow>
           polar_points_spec py_float [(''angle_0'', 100), (''angle_90'', 50)] =
             [(100, 0, 0), (0, 50, 0)]"
    by (simp add: polar_points_spec_def parse_angle_def)
qed

theorem polar_to_cartesian_witness:
  "readings \<lparr>timestamp = 1, device_id = ''lidar'',
             readings = Some [(''angle_0'', 100), (''angle_90'', 50)]\<rparr> =
     Some [(''angle_0'', 100), (''angle_90'', 50)] \<and>
   [(''angle_0'', 100), (''angle_90'', 50 :: real)] \<noteq> [] \<and>
   (\<exists>lg colors.
      convert_readings_to_points
        (\<lambda>s. if s = ''0'' then Some 0 else if s = ''90'' then Some 90 else None)
        (\<lambda>x. (x, x, x))
        (Some \<lparr>timestamp = 1, device_id = ''lidar'',
               readings = Some [(''angle_0'', 100), (''angle_90'', 50)]\<rparr>) =
        (lg, Inr (Some ([(100, 0, 0), (0, 50, 0)], colors))) \<and> length colors = 2)"
proof -
  let ?pf = "\<lambda>s. if s = ''0'' then Some (0::real) else if s = ''90'' then Some 90 else None"
  let ?rs = "[(''angle_0'', 100), (''angle_90'', 50 :: real)]"
  let ?scan = "\<lparr>timestamp = 1, device_id = ''lidar'', readings = Some ?rs\<rparr>"
  have h1: "readings ?scan = Some ?rs" by simp
  have h2: "?rs \<noteq> []" by simp
  have h3: "?pf ''0'' = Some 0 \<and> ?pf ''90'' = Some 90" by simp
  from polar_to_cartesian [OF h1 h2, of ?pf "\<lambda>x. (x, x, x)"] h3
  have pts: "polar_points_spec ?pf ?rs = [(100, 0, 0), (0, 50, 0)]"
    and run: "\<exists>lg colors. convert_readings_to_points ?pf (\<lambda>x. (x, x, x)) (Some ?scan) =
             (lg, Inr (Some (polar_points_spec ?pf ?rs, colors))) \<and>
           length colors = length (polar_points_spec ?pf ?rs)"
    by blast+
  from run show ?thesis unfolding pts using h1 h2 by (simp add: numeral_2_eq_2)
qed

section \<open>Results about the ingestion recorder\<close>

subsection \<open>Auxiliary facts\<close>

lemma p95_of_nonempty:
  assumes "ls \<noteq> []"
  shows "p95_of ls = Inr (sort ls ! nat \<lfloor>real (length ls) * (95 / 100)\<rfloor>)"
    and "nat \<lfloor>real (length ls) * (95 / 100)\<rfloor> < length ls"
proof -
  let ?x = "real (length ls) * (95 / 100)"
  from assms have n: "0 < length ls" by simp
  then have x0: "0 \<le> ?x" by simp
  from n have "?x < real (length ls)" by simp
  then have up: "\<lfloor>?x\<rfloor> < int (length ls)" by (simp add: floor_less_iff)
  from x0 have lo: "0 \<le> \<lfloor>?x\<rfloor>" by simp
  from lo up show "nat \<lfloor>?x\<rfloor> < length ls" by linarith
  from lo up x0 show "p95_of ls = Inr (sort ls ! nat \<lfloor>?x\<rfloor>)"
    by (simp add: p95_of_def py_getitem_def py_int_def)
qed

lemma executemany_readings_frame:
  "executemany_readings d xs = (e, d') \<Longrightarrow>
     sensor_data (work d') = sensor_data (work d) \<and>
     performance_stats (work d') = performance_stats (work d) \<and>
     durable d' = durable d \<and> commits d' = commits d"
  by (induction d xs rule: executemany_readings.induct)
     (auto split: sum.splits if_splits)

lemma executemany_readings_ok:
  "list_all (\<lambda>(angle, v). storable v) rds \<Longrightarrow>
     fst (executemany_readings d (map (Pair i) rds)) = None"
  by (induction rds arbitrary: d) (auto simp: storable_def split: sum.splits)

lemma insert_sensor_data_ok:
  assumes "sql_bind ts = Inr a" "sql_bind rt = Inr b" "sql_bind mid = Inr c"
    "sql_bind dev = Inr dv" "sql_bind lat = Inr l" "a \<noteq> SqlNull" "b \<noteq> SqlNull" "dv \<noteq> SqlNull"
  shows "insert_sensor_data d [ts, rt, mid, dev, lat] =
     (None, d\<lparr>work := (work d)\<lparr>sensor_data := sensor_data (work d) @
                   [\<lparr>row_id = Suc (length (sensor_data (work d))),
                     row_timestamp = a, row_receive_time = b, row_message_id = c,
                     row_device_id = dv, row_latency_ms = l\<rparr>]\<rparr>\<rparr>)"
  using assms by (simp add: insert_sensor_data_def)

lemma insert_sensor_data_cases:
  assumes "insert_sensor_data d [ts, rt, mid, dev, lat] = (e, d')"
  shows "(e \<noteq> None \<and> d' = d) \<or>
         (e = None \<and> (\<exists>a b c dv l. sql_bind ts = Inr a \<and> sql_bind rt = Inr b \<and> sql_bind mid = Inr c \<and>
            sql_bind dev = Inr dv \<and> sql_bind lat = Inr l \<and> a \<noteq> SqlNull \<and> b \<noteq> SqlNull \<and> dv \<noteq> SqlNull \<and>
            d' = d\<lparr>work := (work d)\<lparr>sensor_data := sensor_data (work d) @
                   [\<lparr>row_id = Suc (length (sensor_data (work d))),
                     row_timestamp = a, row_receive_time = b, row_message_id = c,
                     row_device_id = dv, row_latency_ms = l\<rparr>]\<rparr>\<rparr>))"
  using assms by (auto simp: insert_sensor_data_def split: sum.splits if_splits)

lemma storable_bind: "storable v \<Longrightarrow> \<exists>s. sql_bind v = Inr s \<and> s \<noteq> SqlNull"
  by (cases "sql_bind v") (simp_all add: storable_def)

lemma bindable_bind: "bindable v \<Longrightarrow> \<exists>s. sql_bind v = Inr s"
  by (cases "sql_bind v") (simp_all add: bindable_def)

lemma wf_binds:
  assumes "well_formed_payload (JObj kvs)"
  shows "\<exists>a c dv. sql_bind (dict_get kvs ''timestamp'' (JFloat now)) = Inr a \<and> a \<noteq> SqlNull \<and>
           sql_bind (dict_get kvs ''message_id'' (JInt (- 1))) = Inr c \<and>
           sql_bind (dict_get kvs ''device_id'' (JStr ''unknown'')) = Inr dv \<and> dv \<noteq> SqlNull"
proof -
  have "\<exists>a. sql_bind (dict_get kvs ''timestamp'' (JFloat now)) = Inr a \<and> a \<noteq> SqlNull"
  proof (cases "map_of kvs ''timestamp''")
    case None
    then show ?thesis by (simp add: dict_get_def sql_bind_def)
  next
    case (Some v)
    with assms have "storable v" by (simp add: well_formed_payload_def)
    with Some storable_bind show ?thesis by (simp add: dict_get_def)
  qed
  moreover have "\<exists>c. sql_bind (dict_get kvs ''message_id'' (JInt (- 1))) = Inr c"
  proof (cases "map_of kvs ''message_id''")
    case None
    then show ?thesis by (simp add: dict_get_def sql_bind_def)
  next
    case (Some v)
    with assms have "bindable v" by (simp add: well_formed_payload_def)
    with Some bindable_bind show ?thesis by (simp add: dict_get_def)
  qed
  moreover have "\<exists>dv. sql_bind (dict_get kvs ''device_id'' (JStr ''unknown'')) = Inr dv \<and> dv \<noteq> SqlNull"
  proof (cases "map_of kvs ''device_id''")
    case None
    then show ?thesis by (simp add: dict_get_def sql_bind_def)
  next
    case (Some v)
    with assms have "storable v" by (simp add: well_formed_payload_def)
    with Some storable_bind show ?thesis by (simp add: dict_get_def)
  qed
  ultimately show ?thesis by blast
qed

lemma sql_bind_latency:
  "sql_bind (case lat of None \<Rightarrow> JNull | Some l \<Rightarrow> JFloat l) =
     Inr (case lat of None \<Rightarrow> SqlNull | Some l \<Rightarrow> SqlReal l)"
  by (simp add: sql_bind_def split: option.splits)

lemma store_message_unfold:
  assumes "insert_sensor_data (db_connection st)
       [dict_get kvs ''timestamp'' (JFloat now), JFloat rt,
        dict_get kvs ''message_id'' (JInt (- 1)), dict_get kvs ''device_id'' (JStr ''unknown''),
        (case lat of None \<Rightarrow> JNull | Some l \<Rightarrow> JFloat l)] = (e1, d1)"
    and "(if e1 \<noteq> None then (e1, d1)
          else (case map_of kvs ''readings'' of
            Some (JObj rds) \<Rightarrow>
              executemany_readings d1 (map (\<lambda>(angle, v). (lastrowid d1, angle, v)) rds)
          | _ \<Rightarrow> (None, d1))) = (e2, d2)"
  shows "store_message st now (JObj kvs) rt lat =
     (case e2 of
        None \<Rightarrow> (None, st\<lparr>db_connection := (if message_counts st mod 100 = 0 then commit d2 else d2)\<rparr>)
      | Some e \<Rightarrow>
          (if e = SqliteError
           then (None, st\<lparr>db_connection := commit d2, logged := logged st @ [ERROR]\<rparr>)
           else (Some e, st\<lparr>db_connection := d2\<rparr>)))"
  unfolding store_message_def Let_def json.case assms(1) prod.case assms(2) ..

lemma store_message_wf:
  assumes "well_formed_payload (JObj kvs)"
  shows "\<exists>d2 a c dv.
      store_message st now (JObj kvs) rt lat =
        (None, st\<lparr>db_connection := (if message_counts st mod 100 = 0 then commit d2 else d2)\<rparr>) \<and>
      sql_bind (dict_get kvs ''timestamp'' (JFloat now)) = Inr a \<and>
      sql_bind (dict_get kvs ''message_id'' (JInt (- 1))) = Inr c \<and>
      sql_bind (dict_get kvs ''device_id'' (JStr ''unknown'')) = Inr dv \<and>
      sensor_data (work d2) = sensor_data (work (db_connection st)) @
          [\<lparr>row_id = Suc (length (sensor_data (work (db_connection st)))),
            row_timestamp = a, row_receive_time = SqlReal rt, row_message_id = c,
            row_device_id = dv,
            row_latency_ms = (case lat of None \<Rightarrow> SqlNull | Some l \<Rightarrow> SqlReal l)\<rparr>] \<and>
      performance_stats (work d2) = performance_stats (work (db_connection st)) \<and>
      durable d2 = durable (db_connection st) \<and> commits d2 = commits (db_connection st)"
proof -
  let ?d = "db_connection st"
  from wf_binds [OF assms, of now] obtain a c dv where
    b: "sql_bind (dict_get kvs ''timestamp'' (JFloat now)) = Inr a" "a \<noteq> SqlNull"
       "sql_bind (dict_get kvs ''message_id'' (JInt (- 1))) = Inr c"
       "sql_bind (dict_get kvs ''device_id'' (JStr ''unknown'')) = Inr dv" "dv \<noteq> SqlNull"
    by blast
  let ?row = "\<lparr>row_id = Suc (length (sensor_data (work ?d))),
            row_timestamp = a, row_receive_time = SqlReal rt, row_message_id = c,
            row_device_id = dv,
            row_latency_ms = (case lat of None \<Rightarrow> SqlNull | Some l \<Rightarrow> SqlReal l)\<rparr>"
  let ?d1 = "?d\<lparr>work := (work ?d)\<lparr>sensor_data := sensor_data (work ?d) @ [?row]\<rparr>\<rparr>"
  have rt: "sql_bind (JFloat rt) = Inr (SqlReal rt)" by (simp add: sql_bind_def)
  have ins: "insert_sensor_data ?d [dict_get kvs ''timestamp'' (JFloat now), JFloat rt,
       dict_get kvs ''message_id'' (JInt (- 1)), dict_get kvs ''device_id'' (JStr ''unknown''),
       (case lat of None \<Rightarrow> JNull | Some l \<Rightarrow> JFloat l)] = (None, ?d1)"
    using insert_sensor_data_ok [OF b(1) rt b(3) b(4) sql_bind_latency b(2) _ b(5), of ?d lat]
    by simp
  define r where "r = (case map_of kvs ''readings'' of
                          Some (JObj rds) \<Rightarrow>
                            executemany_readings ?d1
                              (map (\<lambda>(angle, v). (lastrowid ?d1, angle, v)) rds)
                        | _ \<Rightarrow> (None, ?d1))"
  have rdwf: "case map_of kvs ''readings'' of
                Some (JObj rds) \<Rightarrow> list_all (\<lambda>(angle, v). storable v) rds
              | _ \<Rightarrow> True"
    using assms by (simp add: well_formed_payload_def)
  have r1: "fst r = None"
  proof (cases "map_of kvs ''readings''")
    case None
    then show ?thesis by (simp add: r_def)
  next
    case (Some v)
    with rdwf show ?thesis
      by (cases v) (simp_all add: r_def executemany_readings_ok)
  qed
  have r2: "sensor_data (work (snd r)) = sensor_data (work ?d1) \<and>
     performance_stats (work (snd r)) = performance_stats (work ?d1) \<and>
     durable (snd r) = durable ?d1 \<and> commits (snd r) = commits ?d1"
  proof (cases "map_of kvs ''readings''")
    case None
    then show ?thesis by (simp add: r_def)
  next
    case (Some v)
    then show ?thesis
      using executemany_readings_frame [OF surjective_pairing]
      by (cases v) (simp_all add: r_def)
  qed
  have "(if (None :: py_exn option) \<noteq> None then (None, ?d1) else r) = (fst r, snd r)" by simp
  from store_message_unfold [OF ins this [unfolded r_def]] r1
  have "store_message st now (JObj kvs) rt lat =
        (None, st\<lparr>db_connection := (if message_counts st mod 100 = 0 then commit (snd r) else snd r)\<rparr>)"
    by (simp add: r_def)
  with b r2 show ?thesis by (intro exI [of _ "snd r"] exI [of _ a] exI [of _ c] exI [of _ dv]) simp
qed

lemma store_message_globals:
  assumes "store_message st now data rt lat = (e, st')"
  shows "latencies st' = latencies st \<and> message_counts st' = message_counts st \<and>
     start_time st' = start_time st \<and> last_report_time st' = last_report_time st"
proof (cases data)
  case (JObj kvs)
  obtain e1 d1 where ins: "insert_sensor_data (db_connection st)
       [dict_get kvs ''timestamp'' (JFloat now), JFloat rt,
        dict_get kvs ''message_id'' (JInt (- 1)), dict_get kvs ''device_id'' (JStr ''unknown''),
        (case lat of None \<Rightarrow> JNull | Some l \<Rightarrow> JFloat l)] = (e1, d1)"
    by (meson surj_pair)
  obtain e2 d2 where rd: "(if e1 \<noteq> None then (e1, d1)
          else (case map_of kvs ''readings'' of
            Some (JObj rds) \<Rightarrow>
              executemany_readings d1 (map (\<lambda>(angle, v). (lastrowid d1, angle, v)) rds)
          | _ \<Rightarrow> (None, d1))) = (e2, d2)"
    by (meson surj_pair)
  from assms show ?thesis
    unfolding JObj store_message_unfold [OF ins rd]
    by (auto split: option.splits if_splits)
qed (use assms in \<open>auto simp: store_message_def\<close>)

lemma report_statistics_quiet:
  assumes "latencies st = [] \<or> start_time st = None \<or> start_time st = Some now \<or>
           message_counts st mod 500 \<noteq> 0"
      and "report_statistics st now snow = (e, st')"
  shows "db_connection st' = db_connection st \<and> latencies st' = latencies st \<and>
         message_counts st' = message_counts st \<and> start_time st' = start_time st \<and>
         last_report_time st' = last_report_time st"
proof (cases "latencies st = []")
  case True
  with assms(2) show ?thesis by (simp add: report_statistics_def)
next
  case False
  from p95_of_nonempty(1) [OF False] assms show ?thesis
    by (auto simp: report_statistics_def Let_def reporting_interval_def split: option.splits if_splits)
qed

lemma report_statistics_snapshot:
  assumes "latencies st \<noteq> []" and "start_time st = Some t0" and "now \<noteq> t0"
      and "message_counts st mod 500 = 0"
  shows "\<exists>st'. report_statistics st now snow = (None, st') \<and>
         latencies st' = latencies st \<and>
         message_counts st' = message_counts st \<and> start_time st' = start_time st \<and>
         last_report_time st' = last_report_time st \<and>
         work (db_connection st') = (work (db_connection st))\<lparr>performance_stats :=
            performance_stats (work (db_connection st)) @
              [\<lparr>ps_timestamp = snow, ps_message_count = message_counts st,
                ps_avg_latency = sum_list (latencies st) / real (length (latencies st)),
                ps_min_latency = Min (set (latencies st)),
                ps_max_latency = Max (set (latencies st)),
                ps_p95_latency = sort (latencies st) ! nat \<lfloor>real (length (latencies st)) * (95 / 100)\<rfloor>,
                ps_throughput = real (message_counts st) / (now - t0)\<rparr>]\<rparr> \<and>
         durable (db_connection st') = work (db_connection st') \<and>
         commits (db_connection st') = Suc (commits (db_connection st))"
  using assms p95_of_nonempty(1) [OF assms(1)]
  by (simp add: report_statistics_def Let_def reporting_interval_def save_statistics_snapshot_def
        commit_def)

lemma periodic_report_quiet:
  assumes "\<not> t_check clk - last_report_time st > real reporting_interval \<or> latencies st = [] \<or>
           start_time st = None \<or> start_time st = Some (t_report clk) \<or>
           message_counts st mod 500 \<noteq> 0"
      and "periodic_report st clk = (e, st')"
  shows "db_connection st' = db_connection st \<and> latencies st' = latencies st \<and>
         message_counts st' = message_counts st \<and> start_time st' = start_time st \<and>
         (\<not> t_check clk - last_report_time st > real reporting_interval \<longrightarrow>
            last_report_time st' = last_report_time st)"
proof -
  let ?st3 = "if message_counts st mod 100 = 0 then st\<lparr>logged := logged st @ [INFO]\<rparr> else st"
  obtain e4 st4 where r: "report_statistics ?st3 (t_report clk) (t_snapshot clk) = (e4, st4)"
    by (meson surj_pair)
  show ?thesis
  proof (cases "t_check clk - last_report_time st > real reporting_interval")
    case False
    with assms(2) show ?thesis by (auto simp: periodic_report_def Let_def split: if_splits)
  next
    case True
    with assms(1) have "latencies ?st3 = [] \<or> start_time ?st3 = None \<or>
        start_time ?st3 = Some (t_report clk) \<or> message_counts ?st3 mod 500 \<noteq> 0"
      by auto
    from report_statistics_quiet [OF this r] assms(2) True r show ?thesis
      by (auto simp: periodic_report_def Let_def split: if_splits option.splits)
  qed
qed

lemma periodic_report_snapshot:
  assumes "t_check clk - last_report_time st > real reporting_interval"
      and "latencies st \<noteq> []" and "start_time st = Some t0" and "t_report clk \<noteq> t0"
      and "message_counts st mod 500 = 0"
  shows "\<exists>st'. periodic_report st clk = (None, st') \<and>
         latencies st' = latencies st \<and>
         message_counts st' = message_counts st \<and> start_time st' = start_time st \<and>
         work (db_connection st') = (work (db_connection st))\<lparr>performance_stats :=
            performance_stats (work (db_connection st)) @
              [\<lparr>ps_timestamp = t_snapshot clk, ps_message_count = message_counts st,
                ps_avg_latency = sum_list (latencies st) / real (length (latencies st)),
                ps_min_latency = Min (set (latencies st)),
                ps_max_latency = Max (set (latencies st)),
                ps_p95_latency = sort (latencies st) ! nat \<lfloor>real (length (latencies st)) * (95 / 100)\<rfloor>,
                ps_throughput = real (message_counts st) / (t_report clk - t0)\<rparr>]\<rparr> \<and>
         durable (db_connection st') = work (db_connection st') \<and>
         commits (db_connection st') = Suc (commits (db_connection st))"
proof -
  let ?st3 = "st\<lparr>logged := logged st @ [INFO]\<rparr>"
  have "message_counts st mod 500 mod 100 = message_counts st mod 100"
    by (rule mod_mod_cancel) simp
  with assms(5) have m: "message_counts st mod 100 = 0" by simp
  have "latencies ?st3 \<noteq> []" using assms(2) by simp
  moreover have "start_time ?st3 = Some t0" using assms(3) by simp
  moreover have "message_counts ?st3 mod 500 = 0" using assms(5) by simp
  ultimately have "latencies ?st3 \<noteq> []" "start_time ?st3 = Some t0"
    "message_counts ?st3 mod 500 = 0" by blast+
  from report_statistics_snapshot [OF this(1) this(2) assms(4) this(3), of "t_snapshot clk"]
  obtain st4 where "report_statistics ?st3 (t_report clk) (t_snapshot clk) = (None, st4)"
     and "latencies st4 = latencies st" "message_counts st4 = message_counts st"
     "start_time st4 = start_time st"
     "work (db_connection st4) = (work (db_connection st))\<lparr>performance_stats :=
            performance_stats (work (db_connection st)) @
              [\<lparr>ps_timestamp = t_snapshot clk, ps_message_count = message_counts st,
                ps_avg_latency = sum_list (latencies st) / real (length (latencies st)),
                ps_min_latency = Min (set (latencies st)),
                ps_max_latency = Max (set (latencies st)),
                ps_p95_latency = sort (latencies st) ! nat \<lfloor>real (length (latencies st)) * (95 / 100)\<rfloor>,
                ps_throughput = real (message_counts st) / (t_report clk - t0)\<rparr>]\<rparr>"
     "durable (db_connection st4) = work (db_connection st4)"
     "commits (db_connection st4) = Suc (commits (db_connection st))"
    by auto
  with assms(1) m show ?thesis
    by (simp add: periodic_report_def)
qed

lemma latency_wf:
  assumes "well_formed_payload (JObj kvs)"
  shows "has_send_time (JObj kvs) = Inr (map_of kvs ''send_time'' \<noteq> None)"
    and "\<exists>lat. (if map_of kvs ''send_time'' \<noteq> None
           then map_sum id Some (compute_latency rt (JObj kvs)) else Inr None) = Inr lat \<and>
          (case map_of kvs ''send_time'' of
             None \<Rightarrow> lat = None
           | Some v \<Rightarrow> \<exists>s. py_number v = Some s \<and> lat = Some ((rt - s) * 1000))"
  using assms
  by (auto simp: has_send_time_def well_formed_payload_def compute_latency_def split: option.splits)

lemma on_message_wf:
  assumes wf: "well_formed_payload (JObj kvs)"
      and S: "S = on_message st clk (Some (JObj kvs))"
  shows "message_counts S = Suc (message_counts st) \<and>
     start_time S = start_time st \<and>
     latencies S = latencies st @
        (case map_of kvs ''send_time'' of None \<Rightarrow> []
         | Some v \<Rightarrow> (case py_number v of None \<Rightarrow> [] | Some s \<Rightarrow> [(t_receive clk - s) * 1000])) \<and>
     (\<not> t_check clk - last_report_time st > real reporting_interval \<longrightarrow>
        last_report_time S = last_report_time st) \<and>
     (\<exists>a c dv. sql_bind (dict_get kvs ''timestamp'' (JFloat (t_store clk))) = Inr a \<and>
        sql_bind (dict_get kvs ''message_id'' (JInt (- 1))) = Inr c \<and>
        sql_bind (dict_get kvs ''device_id'' (JStr ''unknown'')) = Inr dv \<and>
        sensor_data (work (db_connection S)) = sensor_data (work (db_connection st)) @
          [\<lparr>row_id = Suc (length (sensor_data (work (db_connection st)))),
            row_timestamp = a, row_receive_time = SqlReal (t_receive clk), row_message_id = c,
            row_device_id = dv,
            row_latency_ms =
              (case map_of kvs ''send_time'' of None \<Rightarrow> SqlNull
               | Some v \<Rightarrow> (case py_number v of None \<Rightarrow> SqlNull
                            | Some s \<Rightarrow> SqlReal ((t_receive clk - s) * 1000)))\<rparr>]) \<and>
     (if t_check clk - last_report_time st > real reporting_interval \<and>
         (latencies st \<noteq> [] \<or> map_of kvs ''send_time'' \<noteq> None) \<and>
         (\<exists>t0. start_time st = Some t0 \<and> t_report clk \<noteq> t0) \<and>
         Suc (message_counts st) mod 500 = 0
      then (\<exists>srow. performance_stats (work (db_connection S)) =
                      performance_stats (work (db_connection st)) @ [srow] \<and>
                    ps_message_count srow = Suc (message_counts st) \<and>
                    ps_p95_latency srow =
                      sort (latencies S) ! nat \<lfloor>real (length (latencies S)) * (95 / 100)\<rfloor>) \<and>
           commits (db_connection S) = commits (db_connection st) + 2
      else performance_stats (work (db_connection S)) =
             performance_stats (work (db_connection st)) \<and>
           commits (db_connection S) = commits (db_connection st) +
             (if Suc (message_counts st) mod 100 = 0 then 1 else 0)) \<and>
     durable (db_connection S) =
       (if Suc (message_counts st) mod 100 = 0 then work (db_connection S)
        else durable (db_connection st))"
proof -
  let ?rt = "t_receive clk"
  let ?mc = "message_counts st"
  from latency_wf(1) [OF wf] latency_wf(2) [OF wf, of ?rt] obtain lat where
    has: "has_send_time (JObj kvs) = Inr (map_of kvs ''send_time'' \<noteq> None)" and
    lat: "(if map_of kvs ''send_time'' \<noteq> None
           then map_sum id Some (compute_latency ?rt (JObj kvs)) else Inr None) = Inr lat" and
    latspec: "case map_of kvs ''send_time'' of
             None \<Rightarrow> lat = None
           | Some v \<Rightarrow> \<exists>s. py_number v = Some s \<and> lat = Some ((?rt - s) * 1000)"
    by blast
  let ?L = "case lat of None \<Rightarrow> latencies st | Some l \<Rightarrow> latencies st @ [l]"
  let ?st1 = "st\<lparr>latencies := ?L, message_counts := ?mc + 1\<rparr>"
  from store_message_wf [OF wf, of ?st1 "t_store clk" ?rt lat] obtain d2 a c dv where
    store: "store_message ?st1 (t_store clk) (JObj kvs) ?rt lat =
        (None, ?st1\<lparr>db_connection := (if message_counts ?st1 mod 100 = 0 then commit d2 else d2)\<rparr>)"
    and binds: "sql_bind (dict_get kvs ''timestamp'' (JFloat (t_store clk))) = Inr a"
      "sql_bind (dict_get kvs ''message_id'' (JInt (- 1))) = Inr c"
      "sql_bind (dict_get kvs ''device_id'' (JStr ''unknown'')) = Inr dv"
    and rows: "sensor_data (work d2) = sensor_data (work (db_connection st)) @
          [\<lparr>row_id = Suc (length (sensor_data (work (db_connection st)))),
            row_timestamp = a, row_receive_time = SqlReal ?rt, row_message_id = c,
            row_device_id = dv,
            row_latency_ms = (case lat of None \<Rightarrow> SqlNull | Some l \<Rightarrow> SqlReal l)\<rparr>]"
    and frame: "performance_stats (work d2) = performance_stats (work (db_connection st))"
      "durable d2 = durable (db_connection st)" "commits d2 = commits (db_connection st)"
    by auto
  let ?D = "if Suc ?mc mod 100 = 0 then commit d2 else d2"
  let ?st2 = "?st1\<lparr>db_connection := ?D\<rparr>"
  obtain e st4 where pr: "periodic_report ?st2 clk = (e, st4)" by (meson surj_pair)
  have om: "S = (case e of None \<Rightarrow> st4 | Some x \<Rightarrow> st4\<lparr>logged := logged st4 @ [ERROR]\<rparr>)"
    using has lat store pr unfolding S on_message_def Let_def
    by (simp split: option.splits)
  have Leq: "?L = latencies st @
        (case map_of kvs ''send_time'' of None \<Rightarrow> []
         | Some v \<Rightarrow> (case py_number v of None \<Rightarrow> [] | Some s \<Rightarrow> [(?rt - s) * 1000]))"
    using latspec by (auto split: option.splits)
  have lateq: "(case lat of None \<Rightarrow> SqlNull | Some l \<Rightarrow> SqlReal l) =
          (case map_of kvs ''send_time'' of None \<Rightarrow> SqlNull
               | Some v \<Rightarrow> (case py_number v of None \<Rightarrow> SqlNull
                            | Some s \<Rightarrow> SqlReal ((?rt - s) * 1000)))"
    using latspec by (auto split: option.splits)
  have Lne: "(?L \<noteq> []) = (latencies st \<noteq> [] \<or> map_of kvs ''send_time'' \<noteq> None)"
    using latspec by (auto split: option.splits)
  have workD: "work ?D = work d2" and commitsD: "commits ?D = commits (db_connection st) +
             (if Suc ?mc mod 100 = 0 then 1 else 0)"
    and durD: "durable ?D = (if Suc ?mc mod 100 = 0 then work d2 else durable (db_connection st))"
    using frame by (simp_all add: commit_def)
  let ?cond = "t_check clk - last_report_time st > real reporting_interval \<and>
         (latencies st \<noteq> [] \<or> map_of kvs ''send_time'' \<noteq> None) \<and>
         (\<exists>t0. start_time st = Some t0 \<and> t_report clk \<noteq> t0) \<and>
         Suc ?mc mod 500 = 0"
  show ?thesis
  proof (cases ?cond)
    case True
    then obtain t0 where t0: "start_time st = Some t0" "t_report clk \<noteq> t0" by blast
    have "Suc ?mc mod 500 mod 100 = Suc ?mc mod 100" by (rule mod_mod_cancel) simp
    with True have m100: "Suc ?mc mod 100 = 0" by simp
    have c1: "t_check clk - last_report_time ?st2 > real reporting_interval" using True by simp
    have c2: "latencies ?st2 \<noteq> []" using True Lne by simp
    have c3: "start_time ?st2 = Some t0" using t0 by simp
    have c5: "message_counts ?st2 mod 500 = 0" using True by simp
    from periodic_report_snapshot [OF c1 c2 c3 t0(2) c5] pr
    have e: "e = None" and st4: "latencies st4 = latencies ?st2"
         "message_counts st4 = message_counts ?st2" "start_time st4 = start_time ?st2"
         "work (db_connection st4) = (work (db_connection ?st2))\<lparr>performance_stats :=
            performance_stats (work (db_connection ?st2)) @
              [\<lparr>ps_timestamp = t_snapshot clk, ps_message_count = message_counts ?st2,
                ps_avg_latency = sum_list (latencies ?st2) / real (length (latencies ?st2)),
                ps_min_latency = Min (set (latencies ?st2)),
                ps_max_latency = Max (set (latencies ?st2)),
                ps_p95_latency = sort (latencies ?st2) ! nat \<lfloor>real (length (latencies ?st2)) * (95 / 100)\<rfloor>,
                ps_throughput = real (message_counts ?st2) / (t_report clk - t0)\<rparr>]\<rparr>"
         "durable (db_connection st4) = work (db_connection st4)"
         "commits (db_connection st4) = Suc (commits (db_connection ?st2))"
      by auto
    from e om have SS: "S = st4" by simp
    have p1: "message_counts S = Suc ?mc" using SS st4(2) by simp
    have p2: "start_time S = start_time st" using SS st4(3) by simp
    have p3: "latencies S = ?L" using SS st4(1) by simp
    have p4: "sensor_data (work (db_connection S)) = sensor_data (work d2)"
      using SS st4(4) workD by simp
    have p5: "performance_stats (work (db_connection S)) =
         performance_stats (work (db_connection st)) @
              [\<lparr>ps_timestamp = t_snapshot clk, ps_message_count = Suc ?mc,
                ps_avg_latency = sum_list ?L / real (length ?L),
                ps_min_latency = Min (set ?L),
                ps_max_latency = Max (set ?L),
                ps_p95_latency = sort ?L ! nat \<lfloor>real (length ?L) * (95 / 100)\<rfloor>,
                ps_throughput = real (Suc ?mc) / (t_report clk - t0)\<rparr>]"
      using SS st4(4) workD frame(1) by simp
    have p6: "commits (db_connection S) = commits (db_connection st) + 2"
      using SS st4(6) commitsD m100 by simp
    have p7: "durable (db_connection S) = work (db_connection S)" using SS st4(5) by simp
    from True p1 p2 p3 p4 p5 p6 p7 m100 binds rows show ?thesis
      unfolding Leq [symmetric] lateq [symmetric] by simp
  next
    case False
    then have q: "\<not> t_check clk - last_report_time ?st2 > real reporting_interval \<or>
        latencies ?st2 = [] \<or> start_time ?st2 = None \<or> start_time ?st2 = Some (t_report clk) \<or>
        message_counts ?st2 mod 500 \<noteq> 0"
      using Lne by (cases "start_time st") auto
    from periodic_report_quiet [OF q pr]
    have st4: "db_connection st4 = ?D" "latencies st4 = ?L" "message_counts st4 = Suc ?mc"
      "start_time st4 = start_time st"
      "\<not> t_check clk - last_report_time st > real reporting_interval \<longrightarrow>
            last_report_time st4 = last_report_time st"
      by simp_all
    have p0: "db_connection S = ?D" using om st4(1) by (cases e) simp_all
    have p1: "message_counts S = Suc ?mc" using om st4(3) by (cases e) simp_all
    have p2: "start_time S = start_time st" using om st4(4) by (cases e) simp_all
    have p3: "latencies S = ?L" using om st4(2) by (cases e) simp_all
    have p4: "\<not> t_check clk - last_report_time st > real reporting_interval \<longrightarrow>
            last_report_time S = last_report_time st" using om st4(5) by (cases e) simp_all
    from False p1 p2 p3 p4 binds rows frame show ?thesis
      unfolding Leq [symmetric] lateq [symmetric] p0 workD commitsD durD by simp
  qed
qed

lemma wf_JObj: "well_formed_payload d \<Longrightarrow> \<exists>kvs. d = JObj kvs"
  by (cases d) (simp_all add: well_formed_payload_def)

lemma deliver_append: "deliver st (xs @ ys) = deliver (deliver st xs) ys"
  by (induction xs arbitrary: st) auto

lemma deliver_snoc: "deliver st (xs @ [(clk, p)]) = on_message (deliver st xs) clk p"
  by (simp add: deliver_append)

lemma close_database_flush:
  "commits (db_connection (close_database st)) = Suc (commits (db_connection st)) \<and>
   durable (db_connection (close_database st)) = work (db_connection st) \<and>
   work (db_connection (close_database st)) = work (db_connection st)"
  by (simp add: close_database_def commit_def)

lemma deliver_wf:
  assumes "\<forall>(clk, p) \<in> set msgs. \<exists>d. p = Some d \<and> well_formed_payload d"
  shows "message_counts (deliver st msgs) = message_counts st + length msgs \<and>
         length (sensor_data (work (db_connection (deliver st msgs)))) =
           length (sensor_data (work (db_connection st))) + length msgs \<and>
         commits (db_connection (deliver st msgs)) +
             length (performance_stats (work (db_connection st))) + message_counts st div 100 =
           commits (db_connection st) + (message_counts st + length msgs) div 100 +
             length (performance_stats (work (db_connection (deliver st msgs)))) \<and>
         length (performance_stats (work (db_connection (deliver st msgs)))) + message_counts st div 500 \<le>
           length (performance_stats (work (db_connection st))) + (message_counts st + length msgs) div 500"
  using assms
proof (induction msgs rule: rev_induct)
  case Nil
  then show ?case by simp
next
  case (snoc x xs)
  obtain clk p where x: "x = (clk, p)" by (cases x)
  from snoc.prems have "case x of (clk, p) \<Rightarrow> \<exists>d. p = Some d \<and> well_formed_payload d"
    by simp
  with x obtain d where "p = Some d" and "well_formed_payload d" by auto
  with wf_JObj [of d] obtain kvs where p: "p = Some (JObj kvs)"
    and wf: "well_formed_payload (JObj kvs)" by auto
  let ?T = "deliver st xs"
  from snoc.prems have "\<forall>(clk, p) \<in> set xs. \<exists>d. p = Some d \<and> well_formed_payload d" by simp
  from snoc.IH [OF this] have
    ih1: "message_counts ?T = message_counts st + length xs" and
    ih2: "length (sensor_data (work (db_connection ?T))) =
           length (sensor_data (work (db_connection st))) + length xs" and
    ih3: "commits (db_connection ?T) +
             length (performance_stats (work (db_connection st))) + message_counts st div 100 =
           commits (db_connection st) + (message_counts st + length xs) div 100 +
             length (performance_stats (work (db_connection ?T)))" and
    ih4: "length (performance_stats (work (db_connection ?T))) + message_counts st div 500 \<le>
           length (performance_stats (work (db_connection st))) + (message_counts st + length xs) div 500"
    by simp_all
  let ?S = "on_message ?T clk (Some (JObj kvs))"
  have S: "deliver st (xs @ [x]) = ?S" by (simp add: x p deliver_snoc)
  note om = on_message_wf [OF wf refl, of ?T clk]
  from om have s1: "message_counts ?S = Suc (message_counts ?T)" by blast
  from om have s2: "length (sensor_data (work (db_connection ?S))) =
      Suc (length (sensor_data (work (db_connection ?T))))" by auto
  let ?n = "message_counts ?T"
  define a :: nat where "a = (if Suc ?n mod 100 = 0 then 1 else 0)"
  define b :: nat where "b = (if Suc ?n mod 500 = 0 then 1 else 0)"
  have d100: "Suc ?n div 100 = ?n div 100 + a"
    by (simp add: div_Suc a_def)
  have d500: "Suc ?n div 500 = ?n div 500 + b"
    by (simp add: div_Suc b_def)
  have "Suc ?n mod 500 mod 100 = Suc ?n mod 100" by (rule mod_mod_cancel) simp
  then have m: "Suc ?n mod 500 = 0 \<Longrightarrow> Suc ?n mod 100 = 0" by simp
  have s3: "commits (db_connection ?S) + length (performance_stats (work (db_connection ?T))) =
      commits (db_connection ?T) + a + length (performance_stats (work (db_connection ?S)))"
   and s4: "length (performance_stats (work (db_connection ?S))) \<le>
        length (performance_stats (work (db_connection ?T))) + b"
    using om m unfolding a_def b_def by (auto split: if_splits)
  have n: "message_counts st + length (xs @ [x]) = Suc ?n" using ih1 by simp
  have g1: "message_counts ?S = message_counts st + length (xs @ [x])" using s1 ih1 by simp
  have g2: "length (sensor_data (work (db_connection ?S))) =
           length (sensor_data (work (db_connection st))) + length (xs @ [x])"
    using s2 ih2 by simp
  have g3: "commits (db_connection ?S) +
             length (performance_stats (work (db_connection st))) + message_counts st div 100 =
           commits (db_connection st) + (message_counts st + length (xs @ [x])) div 100 +
             length (performance_stats (work (db_connection ?S)))"
    unfolding n d100 using s3 ih3 unfolding ih1 [symmetric] by linarith
  have g4: "length (performance_stats (work (db_connection ?S))) + message_counts st div 500 \<le>
           length (performance_stats (work (db_connection st))) +
             (message_counts st + length (xs @ [x])) div 500"
    unfolding n d500 using s4 ih4 unfolding ih1 [symmetric] by linarith
  show ?case unfolding S using g1 g2 g3 g4 by blast
qed

lemma wf_take:
  assumes "\<forall>(clk, p) \<in> set msgs. \<exists>d. p = Some d \<and> well_formed_payload d"
  shows "\<forall>(clk, p) \<in> set (take k msgs). \<exists>d. p = Some d \<and> well_formed_payload d"
  using assms by (meson in_set_takeD)

lemma deliver_durable:
  assumes "\<forall>(clk, p) \<in> set msgs. \<exists>d. p = Some d \<and> well_formed_payload d"
      and "message_counts st = 0"
  shows "durable (db_connection (deliver st msgs)) =
     (if length msgs < 100 then durable (db_connection st)
      else work (db_connection (deliver st (take (length msgs - length msgs mod 100) msgs))))"
  using assms(1)
proof (induction msgs rule: rev_induct)
  case Nil
  then show ?case by simp
next
  case (snoc x xs)
  obtain clk p where x: "x = (clk, p)" by (cases x)
  from snoc.prems have "case x of (clk, p) \<Rightarrow> \<exists>d. p = Some d \<and> well_formed_payload d"
    by simp
  with x obtain d where "p = Some d" and "well_formed_payload d" by auto
  with wf_JObj [of d] obtain kvs where p: "p = Some (JObj kvs)"
    and wf: "well_formed_payload (JObj kvs)" by auto
  let ?T = "deliver st xs"
  let ?n = "length xs"
  from snoc.prems have wfxs: "\<forall>(clk, p) \<in> set xs. \<exists>d. p = Some d \<and> well_formed_payload d" by simp
  from deliver_wf [OF wfxs, of st] assms(2) have mc: "message_counts ?T = ?n" by simp
  let ?S = "on_message ?T clk (Some (JObj kvs))"
  have S: "deliver st (xs @ [x]) = ?S" by (simp add: x p deliver_snoc)
  from on_message_wf [OF wf refl, of ?T clk] mc
  have dur: "durable (db_connection ?S) =
       (if Suc ?n mod 100 = 0 then work (db_connection ?S) else durable (db_connection ?T))"
    by simp
  show ?case
  proof (cases "Suc ?n mod 100 = 0")
    case True
    have "\<not> Suc ?n < 100"
    proof
      assume "Suc ?n < 100"
      then have "Suc ?n mod 100 = Suc ?n" by (rule mod_less)
      with True show False by simp
    qed
    with True dur show ?thesis unfolding S [symmetric] by simp
  next
    case False
    then have ms: "Suc ?n mod 100 = Suc (?n mod 100)" by (simp add: mod_Suc split: if_splits)
    have lt: "(Suc ?n < 100) = (?n < 100)"
    proof (cases "?n = 99")
      case True
      with False show ?thesis by simp
    next
      case False
      then show ?thesis by linarith
    qed
    have le: "?n - ?n mod 100 \<le> ?n" by simp
    have "durable (db_connection ?S) = durable (db_connection ?T)" using dur False by simp
    also have "\<dots> = (if ?n < 100 then durable (db_connection st)
      else work (db_connection (deliver st (take (?n - ?n mod 100) xs))))"
      using snoc.IH [OF wfxs] .
    also have "\<dots> = (if length (xs @ [x]) < 100 then durable (db_connection st)
      else work (db_connection (deliver st
              (take (length (xs @ [x]) - length (xs @ [x]) mod 100) (xs @ [x])))))"
      using lt ms le by simp
    finally show ?thesis unfolding S .
  qed
qed

lemma deliver_quiet:
  assumes "\<forall>(clk, p) \<in> set msgs. (\<exists>d. p = Some d \<and> well_formed_payload d) \<and>
             \<not> t_check clk - last_report_time st > real reporting_interval"
  shows "performance_stats (work (db_connection (deliver st msgs))) =
           performance_stats (work (db_connection st)) \<and>
         last_report_time (deliver st msgs) = last_report_time st"
  using assms
proof (induction msgs arbitrary: st)
  case Nil
  then show ?case by simp
next
  case (Cons x xs)
  obtain clk p where x: "x = (clk, p)" by (cases x)
  from Cons.prems have "case x of (clk, p) \<Rightarrow> (\<exists>d. p = Some d \<and> well_formed_payload d) \<and>
             \<not> t_check clk - last_report_time st > real reporting_interval"
    by simp
  with x obtain d where "p = Some d" and "well_formed_payload d"
    and q: "\<not> t_check clk - last_report_time st > real reporting_interval" by auto
  with wf_JObj [of d] obtain kvs where p: "p = Some (JObj kvs)"
    and wf: "well_formed_payload (JObj kvs)" by auto
  let ?S = "on_message st clk (Some (JObj kvs))"
  from on_message_wf [OF wf refl, of st clk] q
  have l: "last_report_time ?S = last_report_time st"
    and ps: "performance_stats (work (db_connection ?S)) = performance_stats (work (db_connection st))"
    by auto
  from Cons.prems l have "\<forall>(clk, p) \<in> set xs. (\<exists>d. p = Some d \<and> well_formed_payload d) \<and>
             \<not> t_check clk - last_report_time ?S > real reporting_interval"
    by simp
  from Cons.IH [OF this] l ps show ?case by (simp add: x p)
qed

lemma periodic_report_rows:
  assumes "periodic_report st clk = (e, st')"
  shows "sensor_data (work (db_connection st')) = sensor_data (work (db_connection st))"
proof (cases "\<not> t_check clk - last_report_time st > real reporting_interval \<or> latencies st = [] \<or>
           start_time st = None \<or> start_time st = Some (t_report clk) \<or>
           message_counts st mod 500 \<noteq> 0")
  case True
  from periodic_report_quiet [OF True assms] show ?thesis by simp
next
  case False
  then obtain t0 where "t_check clk - last_report_time st > real reporting_interval"
    "latencies st \<noteq> []" "start_time st = Some t0" "t_report clk \<noteq> t0"
    "message_counts st mod 500 = 0" by auto
  from periodic_report_snapshot [OF this] assms show ?thesis by auto
qed

lemma store_message_db:
  assumes "insert_sensor_data (db_connection st)
       [dict_get kvs ''timestamp'' (JFloat now), JFloat rt,
        dict_get kvs ''message_id'' (JInt (- 1)), dict_get kvs ''device_id'' (JStr ''unknown''),
        (case lat of None \<Rightarrow> JNull | Some l \<Rightarrow> JFloat l)] = (e1, d1)"
      and "store_message st now (JObj kvs) rt lat = (e, st')"
  shows "sensor_data (work (db_connection st')) = sensor_data (work d1)"
proof -
  obtain e2 d2 where rd: "(if e1 \<noteq> None then (e1, d1)
          else (case map_of kvs ''readings'' of
            Some (JObj rds) \<Rightarrow>
              executemany_readings d1 (map (\<lambda>(angle, v). (lastrowid d1, angle, v)) rds)
          | _ \<Rightarrow> (None, d1))) = (e2, d2)"
    by (meson surj_pair)
  have d2: "sensor_data (work d2) = sensor_data (work d1)"
  proof (cases "e1 \<noteq> None")
    case True
    with rd show ?thesis by simp
  next
    case False
    show ?thesis
    proof (cases "map_of kvs ''readings''")
      case None
      with False rd show ?thesis by simp
    next
      case (Some v)
      with False rd executemany_readings_frame show ?thesis
        by (cases v) auto
    qed
  qed
  from assms(2) d2 show ?thesis
    unfolding store_message_unfold [OF assms(1) rd]
    by (auto simp: commit_def split: option.splits if_splits)
qed

lemma on_message_store:
  assumes "has_send_time data = Inr has"
      and "(if has then map_sum id Some (compute_latency (t_receive clk) data) else Inr None) = Inr latency"
      and "store_message
             (st\<lparr>latencies := (case latency of None \<Rightarrow> latencies st | Some l \<Rightarrow> latencies st @ [l]),
                  message_counts := message_counts st + 1\<rparr>)
             (t_store clk) data (t_receive clk) latency = (e, st2)"
  shows "sensor_data (work (db_connection (on_message st clk (Some data)))) =
         sensor_data (work (db_connection st2))"
proof (cases e)
  case (Some x)
  with assms show ?thesis by (simp add: on_message_def)
next
  case None
  obtain e4 st4 where pr: "periodic_report st2 clk = (e4, st4)" by (meson surj_pair)
  from periodic_report_rows [OF pr] assms None pr show ?thesis
    by (cases e4) (simp_all add: on_message_def)
qed

lemma example_message_wf: "well_formed_payload example_message"
  by (simp add: example_message_def well_formed_payload_def storable_def bindable_def
        sql_bind_def py_number_def)

lemma deliver_take_Suc:
  assumes "k < length msgs"
  shows "deliver st (take (Suc k) msgs) =
         on_message (deliver st (take k msgs)) (fst (msgs ! k)) (snd (msgs ! k))"
proof -
  from assms have "take (Suc k) msgs = take k msgs @ [(fst (msgs ! k), snd (msgs ! k))]"
    by (simp add: take_Suc_conv_app_nth)
  then show ?thesis by (simp only: deliver_snoc)
qed

lemma commit_step:
  assumes wf: "\<forall>(clk, p) \<in> set msgs. \<exists>d. p = Some d \<and> well_formed_payload d"
      and mc: "message_counts st = 0" and k: "k < length msgs"
  shows "(commits (db_connection (deliver st (take k msgs))) <
          commits (db_connection (deliver st (take (Suc k) msgs)))) = (Suc k mod 100 = 0)"
proof -
  let ?T = "deliver st (take k msgs)"
  from k have "msgs ! k \<in> set msgs" by simp
  from bspec [OF wf this]
  have "case msgs ! k of (clk, p) \<Rightarrow> \<exists>d. p = Some d \<and> well_formed_payload d" .
  then obtain d where "snd (msgs ! k) = Some d" and "well_formed_payload d"
    by (cases "msgs ! k") auto
  with wf_JObj [of d] obtain kvs where p: "snd (msgs ! k) = Some (JObj kvs)"
    and wfk: "well_formed_payload (JObj kvs)" by auto
  from deliver_wf [OF wf_take [OF wf, of k], of st] mc k
  have n: "message_counts ?T = k" by simp
  have "Suc k mod 500 mod 100 = Suc k mod 100" by (rule mod_mod_cancel) simp
  then have m: "Suc k mod 500 = 0 \<Longrightarrow> Suc k mod 100 = 0" by simp
  from on_message_wf [OF wfk refl, of ?T "fst (msgs ! k)"] n m
  have "(commits (db_connection ?T) <
          commits (db_connection (on_message ?T (fst (msgs ! k)) (Some (JObj kvs))))) =
        (Suc k mod 100 = 0)"
    by (auto split: if_splits)
  then show ?thesis unfolding deliver_take_Suc [OF k] p .
qed

lemma deliver_stats_mono:
  assumes "\<forall>(clk, p) \<in> set msgs. \<exists>d. p = Some d \<and> well_formed_payload d"
  shows "length (performance_stats (work (db_connection st))) \<le>
         length (performance_stats (work (db_connection (deliver st msgs))))"
  using assms
proof (induction msgs arbitrary: st)
  case Nil
  then show ?case by simp
next
  case (Cons x xs)
  obtain clk p where x: "x = (clk, p)" by (cases x)
  from Cons.prems have "case x of (clk, p) \<Rightarrow> \<exists>d. p = Some d \<and> well_formed_payload d"
    by simp
  with x obtain d where "p = Some d" and "well_formed_payload d" by auto
  with wf_JObj [of d] obtain kvs where p: "p = Some (JObj kvs)"
    and wf: "well_formed_payload (JObj kvs)" by auto
  let ?S = "on_message st clk (Some (JObj kvs))"
  from on_message_wf [OF wf refl, of st clk]
  have "length (performance_stats (work (db_connection st))) \<le>
        length (performance_stats (work (db_connection ?S)))"
    by (auto split: if_splits)
  moreover from Cons.prems have "\<forall>(clk, p) \<in> set xs. \<exists>d. p = Some d \<and> well_formed_payload d"
    by simp
  from Cons.IH [OF this, of ?S]
  have "length (performance_stats (work (db_connection ?S))) \<le>
        length (performance_stats (work (db_connection (deliver ?S xs))))" .
  ultimately show ?case by (simp add: x p)
qed

subsection \<open>The claims about the recorder\<close>

text \<open>
  Claim C5: in a run of successfully handled messages that starts with the counter at 0,
  the store transaction is committed while message \<open>k + 1\<close> is handled exactly when
  \<open>k + 1\<close> is a multiple of 100, so not per message (at a multiple of
  \<open>100 * reporting_interval\<close> a snapshot taken by the report adds a second commit while
  that same message is handled). What is durable after \<open>n\<close> messages is what the
  connection held after the last multiple of 100, and nothing of the run when
  \<open>n < 100\<close>. \<open>close_database\<close> commits once more and makes everything durable. In
  particular, 250 messages give exactly 2 commits in the stream, after which the rows of
  the first 200 messages are durable, and the flush of \<open>close_database\<close> is the third
  commit, after which all 250 rows are durable.
\<close>

theorem batched_commits:
  assumes wf: "\<forall>(clk, p) \<in> set msgs. \<exists>d. p = Some d \<and> well_formed_payload d"
      and mc: "message_counts st = 0"
  shows "(\<forall>k < length msgs.
            (commits (db_connection (deliver st (take k msgs))) <
             commits (db_connection (deliver st (take (Suc k) msgs)))) = (Suc k mod 100 = 0)) \<and>
         durable (db_connection (deliver st msgs)) =
           (if length msgs < 100 then durable (db_connection st)
            else work (db_connection (deliver st (take (length msgs - length msgs mod 100) msgs)))) \<and>
         commits (db_connection (close_database (deliver st msgs))) =
           Suc (commits (db_connection (deliver st msgs))) \<and>
         durable (db_connection (close_database (deliver st msgs))) =
           work (db_connection (deliver st msgs)) \<and>
         (length msgs = 250 \<longrightarrow>
            commits (db_connection (deliver st msgs)) = commits (db_connection st) + 2 \<and>
            durable (db_connection (deliver st msgs)) =
              work (db_connection (deliver st (take 200 msgs))) \<and>
            length (sensor_data (durable (db_connection (deliver st msgs)))) =
              length (sensor_data (work (db_connection st))) + 200 \<and>
            commits (db_connection (close_database (deliver st msgs))) =
              commits (db_connection st) + 3 \<and>
            length (sensor_data (durable (db_connection (close_database (deliver st msgs))))) =
              length (sensor_data (work (db_connection st))) + 250)"
proof (intro conjI allI impI)
  fix k assume "k < length msgs"
  from commit_step [OF wf mc this]
  show "(commits (db_connection (deliver st (take k msgs))) <
             commits (db_connection (deliver st (take (Suc k) msgs)))) = (Suc k mod 100 = 0)" .
next
  show "durable (db_connection (deliver st msgs)) =
           (if length msgs < 100 then durable (db_connection st)
            else work (db_connection (deliver st (take (length msgs - length msgs mod 100) msgs))))"
    by (rule deliver_durable [OF wf mc])
next
  show "commits (db_connection (close_database (deliver st msgs))) =
           Suc (commits (db_connection (deliver st msgs)))"
    using close_database_flush by blast
next
  show "durable (db_connection (close_database (deliver st msgs))) =
           work (db_connection (deliver st msgs))"
    using close_database_flush by blast
next
  assume n: "length msgs = 250"
  note dw = deliver_wf [OF wf, of st]
  from dw mc n have
    c: "commits (db_connection (deliver st msgs)) +
             length (performance_stats (work (db_connection st))) =
           commits (db_connection st) + 2 +
             length (performance_stats (work (db_connection (deliver st msgs))))" and
    p: "length (performance_stats (work (db_connection (deliver st msgs)))) \<le>
           length (performance_stats (work (db_connection st)))" and
    r: "length (sensor_data (work (db_connection (deliver st msgs)))) =
           length (sensor_data (work (db_connection st))) + 250"
    by simp_all
  note dt = deliver_wf [OF wf_take [OF wf, of 200], of st]
  from dt mc n have
    pt: "length (performance_stats (work (db_connection (deliver st (take 200 msgs))))) \<le>
           length (performance_stats (work (db_connection st)))" and
    rt: "length (sensor_data (work (db_connection (deliver st (take 200 msgs))))) =
           length (sensor_data (work (db_connection st))) + 200"
    by simp_all
  note ge = deliver_stats_mono [OF wf, of st]
  show "commits (db_connection (deliver st msgs)) = commits (db_connection st) + 2"
    using c p ge by linarith
  from deliver_durable [OF wf mc] n
  show d: "durable (db_connection (deliver st msgs)) =
              work (db_connection (deliver st (take 200 msgs)))" by simp
  show "length (sensor_data (durable (db_connection (deliver st msgs)))) =
              length (sensor_data (work (db_connection st))) + 200"
    unfolding d using rt .
  show "commits (db_connection (close_database (deliver st msgs))) =
              commits (db_connection st) + 3"
    using close_database_flush [of "deliver st msgs"] c p ge by linarith
  show "length (sensor_data (durable (db_connection (close_database (deliver st msgs))))) =
              length (sensor_data (work (db_connection st))) + 250"
    using close_database_flush [of "deliver st msgs"] r by simp
qed

theorem batched_commits_witness:
  "well_formed_payload example_message \<and>
   message_counts (on_connect (module_init 0 empty_db) 0) = 0 \<and>
   commits (db_connection (deliver (on_connect (module_init 0 empty_db) 0)
      (replicate 250 (steady_clock 2, Some example_message)))) = 2 \<and>
   length (sensor_data (durable (db_connection (deliver (on_connect (module_init 0 empty_db) 0)
      (replicate 250 (steady_clock 2, Some example_message)))))) = 200 \<and>
   commits (db_connection (close_database (deliver (on_connect (module_init 0 empty_db) 0)
      (replicate 250 (steady_clock 2, Some example_message))))) = 3 \<and>
   length (sensor_data (durable (db_connection (close_database
      (deliver (on_connect (module_init 0 empty_db) 0)
         (replicate 250 (steady_clock 2, Some example_message))))))) = 250"
proof -
  let ?st = "on_connect (module_init 0 empty_db) 0"
  let ?msgs = "replicate 250 (steady_clock 2, Some example_message)"
  have w: "\<forall>(clk, p) \<in> set ?msgs. \<exists>d. p = Some d \<and> well_formed_payload d"
    by (simp add: example_message_wf)
  have mc: "message_counts ?st = 0" by (simp add: on_connect_def module_init_def)
  have n: "length ?msgs = 250" by simp
  have c0: "commits (db_connection ?st) = 0" "length (sensor_data (work (db_connection ?st))) = 0"
    by (simp_all add: on_connect_def module_init_def empty_db_def)
  note r = batched_commits [OF w mc, THEN conjunct2, THEN conjunct2, THEN conjunct2,
      THEN conjunct2, THEN mp, OF n, unfolded c0]
  note r1 = r [THEN conjunct1]
  note r3 = r [THEN conjunct2, THEN conjunct2, THEN conjunct1]
  note r4 = r [THEN conjunct2, THEN conjunct2, THEN conjunct2, THEN conjunct1]
  note r5 = r [THEN conjunct2, THEN conjunct2, THEN conjunct2, THEN conjunct2]
  from r1 r3 r4 r5 mc example_message_wf show ?thesis by simp
qed

text \<open>
  Claim C6: whenever handling a decoded message records a scan row, the payload is a
  dict, the row's \<open>receive_time\<close> is the receive-side clock reading, and its
  \<open>latency_ms\<close> is NULL when the payload has no \<open>send_time\<close> field and
  \<open>(receive_time - send_time) * 1000\<close> when it has one (which is then a number).
\<close>

theorem latency_recorded:
  assumes "sensor_data (work (db_connection (on_message st clk (Some data)))) =
           sensor_data (work (db_connection st)) @ [row]"
  shows "\<exists>kvs. data = JObj kvs \<and> row_receive_time row = SqlReal (t_receive clk) \<and>
          (case map_of kvs ''send_time'' of
             None \<Rightarrow> row_latency_ms row = SqlNull
           | Some v \<Rightarrow> \<exists>send_time. py_number v = Some send_time \<and>
                row_latency_ms row = SqlReal ((t_receive clk - send_time) * 1000))"
proof (cases "has_send_time data")
  case (Inl e)
  with assms show ?thesis by (simp add: on_message_def)
next
  case (Inr has)
  note has = this
  show ?thesis
  proof (cases "if has then map_sum id Some (compute_latency (t_receive clk) data) else Inr None")
    case (Inl e)
    with has assms show ?thesis by (simp add: on_message_def)
  next
    case (Inr latency)
    let ?st1 = "st\<lparr>latencies := (case latency of None \<Rightarrow> latencies st | Some l \<Rightarrow> latencies st @ [l]),
                  message_counts := message_counts st + 1\<rparr>"
    obtain e st2 where store: "store_message ?st1 (t_store clk) data (t_receive clk) latency = (e, st2)"
      by (meson surj_pair)
    from on_message_store [OF has Inr store] assms
    have rows: "sensor_data (work (db_connection st2)) = sensor_data (work (db_connection st)) @ [row]"
      by simp
    show ?thesis
    proof (cases data)
      case (JObj kvs)
      obtain e1 d1 where ins: "insert_sensor_data (db_connection ?st1)
         [dict_get kvs ''timestamp'' (JFloat (t_store clk)), JFloat (t_receive clk),
          dict_get kvs ''message_id'' (JInt (- 1)), dict_get kvs ''device_id'' (JStr ''unknown''),
          (case latency of None \<Rightarrow> JNull | Some l \<Rightarrow> JFloat l)] = (e1, d1)"
        by (meson surj_pair)
      from store_message_db [OF ins store [unfolded JObj]] rows
      have d1: "sensor_data (work d1) = sensor_data (work (db_connection st)) @ [row]" by simp
      from insert_sensor_data_cases [OF ins] d1
      have "sql_bind (JFloat (t_receive clk)) = Inr (row_receive_time row) \<and>
            sql_bind (case latency of None \<Rightarrow> JNull | Some l \<Rightarrow> JFloat l) = Inr (row_latency_ms row)"
        by auto
      then have rt: "row_receive_time row = SqlReal (t_receive clk)"
        and l: "row_latency_ms row = (case latency of None \<Rightarrow> SqlNull | Some l \<Rightarrow> SqlReal l)"
        by (auto simp: sql_bind_def split: option.splits)
      from has JObj have h: "has = (map_of kvs ''send_time'' \<noteq> None)"
        by (simp add: has_send_time_def)
      have "case map_of kvs ''send_time'' of
             None \<Rightarrow> latency = None
           | Some v \<Rightarrow> \<exists>send_time. py_number v = Some send_time \<and>
                latency = Some ((t_receive clk - send_time) * 1000)"
        using Inr h JObj
        by (auto simp: compute_latency_def split: option.splits)
      with l rt JObj show ?thesis by (auto split: option.splits)
    qed (use store rows in \<open>auto simp: store_message_def\<close>)
  qed
qed

theorem latency_recorded_witness:
  "sensor_data (work (db_connection
      (on_message (on_connect (module_init 0 empty_db) 0) (steady_clock (5 / 4))
         (Some example_message)))) =
     sensor_data (work (db_connection (on_connect (module_init 0 empty_db) 0))) @
       [\<lparr>row_id = 1, row_timestamp = SqlReal 1, row_receive_time = SqlReal (5 / 4),
         row_message_id = SqlInt 7, row_device_id = SqlText ''lidar_sensor'',
         row_latency_ms = SqlReal 250\<rparr>] \<and>
   (\<exists>kvs. example_message = JObj kvs \<and>
      (case map_of kvs ''send_time'' of
         None \<Rightarrow> False
       | Some v \<Rightarrow> \<exists>send_time. py_number v = Some send_time \<and>
            SqlReal 250 = SqlReal ((5 / 4 - send_time) * 1000)))"
proof -
  let ?row = "\<lparr>row_id = 1, row_timestamp = SqlReal 1, row_receive_time = SqlReal (5 / 4),
         row_message_id = SqlInt 7, row_device_id = SqlText ''lidar_sensor'',
         row_latency_ms = SqlReal 250\<rparr>"
  have h: "sensor_data (work (db_connection
      (on_message (on_connect (module_init 0 empty_db) 0) (steady_clock (5 / 4))
         (Some example_message)))) =
     sensor_data (work (db_connection (on_connect (module_init 0 empty_db) 0))) @ [?row]"
    by (simp add: on_message_def has_send_time_def compute_latency_def py_number_def
          store_message_def insert_sensor_data_def sql_bind_def dict_get_def lastrowid_def
          periodic_report_def reporting_interval_def commit_def
          module_init_def on_connect_def empty_db_def steady_clock_def example_message_def)
  from latency_recorded [OF h] h show ?thesis
    by (auto simp: steady_clock_def split: option.splits)
qed

text \<open>
  Claim C7: for every non-empty sequence of \<open>N\<close> accumulated latencies, the p95
  latency computed by \<open>report_statistics\<close> is the element at index
  \<open>floor (0.95 * N)\<close> of the ascending-sorted samples; the index is in range, so the
  subscript never raises; and a snapshot row written by that report carries this value
  as its \<open>p95_latency\<close>.
\<close>

theorem p95_nearest_rank:
  assumes "latencies st \<noteq> []"
  shows "p95_of (latencies st) =
           Inr (sort (latencies st) ! nat \<lfloor>95 / 100 * real (length (latencies st))\<rfloor>) \<and>
         nat \<lfloor>95 / 100 * real (length (latencies st))\<rfloor> < length (latencies st) \<and>
         (\<forall>srow. performance_stats (work (db_connection (snd (report_statistics st now snap_now)))) =
                   performance_stats (work (db_connection st)) @ [srow] \<longrightarrow>
                 ps_p95_latency srow =
                   sort (latencies st) ! nat \<lfloor>95 / 100 * real (length (latencies st))\<rfloor>)"
proof -
  have c: "95 / 100 * real (length (latencies st)) = real (length (latencies st)) * (95 / 100)"
    by simp
  obtain e st' where r: "report_statistics st now snap_now = (e, st')" by (meson surj_pair)
  have "\<forall>srow. performance_stats (work (db_connection st')) =
                   performance_stats (work (db_connection st)) @ [srow] \<longrightarrow>
                 ps_p95_latency srow =
                   sort (latencies st) ! nat \<lfloor>real (length (latencies st)) * (95 / 100)\<rfloor>"
  proof (cases "start_time st = None \<or> start_time st = Some now \<or> message_counts st mod 500 \<noteq> 0")
    case True
    then have "latencies st = [] \<or> start_time st = None \<or> start_time st = Some now \<or>
           message_counts st mod 500 \<noteq> 0" by blast
    from report_statistics_quiet [OF this r] show ?thesis by simp
  next
    case False
    then obtain t0 where "start_time st = Some t0" "now \<noteq> t0" "message_counts st mod 500 = 0"
      by auto
    from report_statistics_snapshot [OF assms this, of snap_now] r show ?thesis by auto
  qed
  with p95_of_nonempty [OF assms] r show ?thesis unfolding c by simp
qed

theorem p95_nearest_rank_witness:
  "latencies ((module_init 0 empty_db)\<lparr>latencies := [30, 10, 20]\<rparr>) \<noteq> [] \<and>
   p95_of (latencies ((module_init 0 empty_db)\<lparr>latencies := [30, 10, 20]\<rparr>)) = Inr 30"
  using p95_nearest_rank [of "(module_init 0 empty_db)\<lparr>latencies := [30, 10, 20]\<rparr>"]
  by (simp add: module_init_def)

text \<open>
  Claim C10: for every decoded payload that is a JSON object, as the message contract
  has it, a scan row is stored whether or not \<open>timestamp\<close>, \<open>message_id\<close> and
  \<open>device_id\<close> are present: a missing \<open>timestamp\<close> is stored as the receiver's clock
  reading taken in \<open>store_message\<close>, a missing \<open>message_id\<close> as \<open>-1\<close>, a missing
  \<open>device_id\<close> as \<open>"unknown"\<close>, and a field that is present is stored as it is bound.
  The hypotheses only exclude failures that have nothing to do with a missing field: a
  \<open>send_time\<close> that is not a number, and a present field holding a value its column
  cannot take. Nothing is assumed about the readings or about the report that may
  follow.
\<close>

theorem missing_fields_use_defaults:
  assumes send: "case map_of kvs ''send_time'' of None \<Rightarrow> True | Some v \<Rightarrow> py_number v \<noteq> None"
      and ts: "case map_of kvs ''timestamp'' of None \<Rightarrow> True | Some v \<Rightarrow> storable v"
      and mid: "case map_of kvs ''message_id'' of None \<Rightarrow> True | Some v \<Rightarrow> bindable v"
      and dev: "case map_of kvs ''device_id'' of None \<Rightarrow> True | Some v \<Rightarrow> storable v"
  shows "\<exists>row. sensor_data (work (db_connection (on_message st clk (Some (JObj kvs))))) =
                 sensor_data (work (db_connection st)) @ [row] \<and>
          row_receive_time row = SqlReal (t_receive clk) \<and>
          (case map_of kvs ''timestamp'' of
             None \<Rightarrow> row_timestamp row = SqlReal (t_store clk)
           | Some v \<Rightarrow> sql_bind v = Inr (row_timestamp row)) \<and>
          (case map_of kvs ''message_id'' of
             None \<Rightarrow> row_message_id row = SqlInt (- 1)
           | Some v \<Rightarrow> sql_bind v = Inr (row_message_id row)) \<and>
          (case map_of kvs ''device_id'' of
             None \<Rightarrow> row_device_id row = SqlText ''unknown''
           | Some v \<Rightarrow> sql_bind v = Inr (row_device_id row))"
proof -
  let ?rt = "t_receive clk"
  have has: "has_send_time (JObj kvs) = Inr (map_of kvs ''send_time'' \<noteq> None)"
    by (simp add: has_send_time_def)
  from send obtain latency where
    lat: "(if map_of kvs ''send_time'' \<noteq> None
           then map_sum id Some (compute_latency ?rt (JObj kvs)) else Inr None) = Inr latency"
    by (auto simp: compute_latency_def split: option.splits)
  from ts obtain a where a: "sql_bind (dict_get kvs ''timestamp'' (JFloat (t_store clk))) = Inr a"
    "a \<noteq> SqlNull"
    "case map_of kvs ''timestamp'' of None \<Rightarrow> a = SqlReal (t_store clk) | Some v \<Rightarrow> sql_bind v = Inr a"
    using storable_bind by (cases "map_of kvs ''timestamp''") (auto simp: dict_get_def sql_bind_def)
  from mid obtain c where c: "sql_bind (dict_get kvs ''message_id'' (JInt (- 1))) = Inr c"
    "case map_of kvs ''message_id'' of None \<Rightarrow> c = SqlInt (- 1) | Some v \<Rightarrow> sql_bind v = Inr c"
    using bindable_bind by (cases "map_of kvs ''message_id''") (auto simp: dict_get_def sql_bind_def)
  from dev obtain dv where dv: "sql_bind (dict_get kvs ''device_id'' (JStr ''unknown'')) = Inr dv"
    "dv \<noteq> SqlNull"
    "case map_of kvs ''device_id'' of None \<Rightarrow> dv = SqlText ''unknown'' | Some v \<Rightarrow> sql_bind v = Inr dv"
    using storable_bind by (cases "map_of kvs ''device_id''") (auto simp: dict_get_def sql_bind_def)
  let ?st1 = "st\<lparr>latencies := (case latency of None \<Rightarrow> latencies st | Some l \<Rightarrow> latencies st @ [l]),
                  message_counts := message_counts st + 1\<rparr>"
  let ?d = "db_connection ?st1"
  let ?row = "\<lparr>row_id = Suc (length (sensor_data (work ?d))),
            row_timestamp = a, row_receive_time = SqlReal ?rt, row_message_id = c,
            row_device_id = dv,
            row_latency_ms = (case latency of None \<Rightarrow> SqlNull | Some l \<Rightarrow> SqlReal l)\<rparr>"
  have rt: "sql_bind (JFloat ?rt) = Inr (SqlReal ?rt)" by (simp add: sql_bind_def)
  have ins: "insert_sensor_data ?d [dict_get kvs ''timestamp'' (JFloat (t_store clk)), JFloat ?rt,
       dict_get kvs ''message_id'' (JInt (- 1)), dict_get kvs ''device_id'' (JStr ''unknown''),
       (case latency of None \<Rightarrow> JNull | Some l \<Rightarrow> JFloat l)] =
       (None, ?d\<lparr>work := (work ?d)\<lparr>sensor_data := sensor_data (work ?d) @ [?row]\<rparr>\<rparr>)"
    using insert_sensor_data_ok [OF a(1) rt c(1) dv(1) sql_bind_latency a(2) _ dv(2), of ?d latency]
    by simp
  obtain e st2 where store: "store_message ?st1 (t_store clk) (JObj kvs) ?rt latency = (e, st2)"
    by (meson surj_pair)
  from on_message_store [OF has lat store] store_message_db [OF ins store]
  have "sensor_data (work (db_connection (on_message st clk (Some (JObj kvs))))) =
                 sensor_data (work (db_connection st)) @ [?row]" by simp
  with a(3) c(2) dv(3) show ?thesis
    by (intro exI [of _ ?row]) (simp split: option.splits)
qed

theorem missing_fields_use_defaults_witness:
  "map_of [(''readings'', JObj [(''angle_0'', JFloat 100)])] ''send_time'' = None \<and>
   map_of [(''readings'', JObj [(''angle_0'', JFloat 100)])] ''timestamp'' = None \<and>
   map_of [(''readings'', JObj [(''angle_0'', JFloat 100)])] ''message_id'' = None \<and>
   map_of [(''readings'', JObj [(''angle_0'', JFloat 100)])] ''device_id'' = None \<and>
   (\<exists>row. sensor_data (work (db_connection
              (on_message (on_connect (module_init 0 empty_db) 0)
                 \<lparr>t_receive = 2, t_store = 3, t_check = 4, t_report = 5, t_snapshot = 6, t_mark = 7\<rparr>
                 (Some (JObj [(''readings'', JObj [(''angle_0'', JFloat 100)])]))))) =
            sensor_data (work (db_connection (on_connect (module_init 0 empty_db) 0))) @ [row] \<and>
          row_receive_time row = SqlReal 2 \<and> row_timestamp row = SqlReal 3 \<and>
          row_message_id row = SqlInt (- 1) \<and> row_device_id row = SqlText ''unknown'')"
  using missing_fields_use_defaults
          [where kvs = "[(''readings'', JObj [(''angle_0'', JFloat 100)])]"
             and clk = "\<lparr>t_receive = 2, t_store = 3, t_check = 4, t_report = 5,
                          t_snapshot = 6, t_mark = 7\<rparr>"
             and st = "on_connect (module_init 0 empty_db) 0"]
  by simp

text \<open>
  Claim C2 at a burst of 500 messages that arrive before the first report is due
  (connection and last report at time 0, every clock reading at time 2), followed by a
  501st message at time 10. \<open>save_statistics_snapshot\<close> is reached only from inside
  \<open>report_statistics\<close>, so the test \<open>message_counts % (100 * reporting_interval) == 0\<close>
  is evaluated only for a message at which the wall-clock report fires. Here the
  500-message milestone is reached with no snapshot row, and the report that fires at the
  501st message writes none either, since the count is then 501.
\<close>

theorem milestone_reached_without_snapshot:
  "message_counts (deliver (on_connect (module_init 0 empty_db) 0)
      (replicate 500 (steady_clock 2, Some example_message))) = 500 \<and>
   performance_stats (work (db_connection (deliver (on_connect (module_init 0 empty_db) 0)
      (replicate 500 (steady_clock 2, Some example_message))))) = [] \<and>
   performance_stats (work (db_connection (deliver (on_connect (module_init 0 empty_db) 0)
      (replicate 500 (steady_clock 2, Some example_message) @
       [(steady_clock 10, Some example_message)])))) = []"
proof -
  let ?st = "on_connect (module_init 0 empty_db) 0"
  let ?msgs = "replicate 500 (steady_clock 2, Some example_message)"
  let ?T = "deliver ?st ?msgs"
  let ?kvs = "[(''timestamp'', JFloat 1), (''device_id'', JStr ''lidar_sensor''),
           (''message_id'', JInt 7), (''send_time'', JFloat 1),
           (''readings'', JObj [(''angle_0'', JFloat 100), (''angle_90'', JFloat 50)])]"
  have q: "\<forall>(clk, p) \<in> set ?msgs. (\<exists>d. p = Some d \<and> well_formed_payload d) \<and>
             \<not> t_check clk - last_report_time ?st > real reporting_interval"
    by (simp add: example_message_wf steady_clock_def on_connect_def module_init_def
          reporting_interval_def)
  then have w: "\<forall>(clk, p) \<in> set ?msgs. \<exists>d. p = Some d \<and> well_formed_payload d" by auto
  from deliver_wf [OF w, of ?st] have mc: "message_counts ?T = 500"
    by (simp add: on_connect_def module_init_def)
  from deliver_quiet [OF q] have ps: "performance_stats (work (db_connection ?T)) = []"
    by (simp add: on_connect_def module_init_def empty_db_def)
  have wfk: "well_formed_payload (JObj ?kvs)"
    using example_message_wf by (simp add: example_message_def)
  have "Suc (message_counts ?T) mod 500 \<noteq> 0" unfolding mc by simp
  with on_message_wf [OF wfk refl, of ?T "steady_clock 10"]
  have "performance_stats (work (db_connection (on_message ?T (steady_clock 10) (Some (JObj ?kvs))))) =
        performance_stats (work (db_connection ?T))"
    by (auto split: if_splits)
  with ps have "performance_stats (work (db_connection
       (deliver ?st (?msgs @ [(steady_clock 10, Some example_message)])))) = []"
    by (simp only: deliver_snoc example_message_def)
  with mc ps show ?thesis by simp
qed

end
